theory Spec2Isabelle
  imports Complex_Main
begin

section \<open>Errors and results\<close>

text \<open>
  Every exception the Python source (or the tensor library under it) can raise is a value
  of \<open>error\<close>; a computation that may raise returns \<open>error + 'a\<close> with \<open>Inl\<close> the error.
\<close>

datatype error =
    AssertionError
  | ZeroDivisionError
  | ValueError
  | IndexError
  | RuntimeError
  | EinopsError
  | AttributeError
  | CheckpointError

definition then_e :: "error + 'a \<Rightarrow> ('a \<Rightarrow> error + 'b) \<Rightarrow> error + 'b" where
  "then_e r k = (case r of Inl e \<Rightarrow> Inl e | Inr x \<Rightarrow> k x)"

section \<open>Tensor shapes and the library operations on them\<close>

text \<open>
  A shape is the list of a tensor's dimension sizes. Each operation of the tensor library
  that the source calls is modelled by what it does to shapes, and by when it raises.
  Element values are floating point and are not modelled here. Module and inputs are
  taken to live on the CUDA device, as the source's \<open>.cuda()\<close> calls require.
\<close>

type_synonym shape = "nat list"

text \<open>\<open>nn.Linear(in_features, out_features)\<close> and \<open>F.linear\<close>: the last axis must be
  \<open>in_features\<close>.\<close>

definition linear :: "nat \<Rightarrow> nat \<Rightarrow> shape \<Rightarrow> error + shape" where
  "linear in_features out_features s =
     (if s \<noteq> [] \<and> last s = in_features then Inr (butlast s @ [out_features])
      else Inl RuntimeError)"

text \<open>\<open>nn.LayerNorm(d)\<close>: the last axis must be \<open>d\<close>; the shape is kept.\<close>

definition layer_norm :: "nat \<Rightarrow> shape \<Rightarrow> error + shape" where
  "layer_norm d s = (if s \<noteq> [] \<and> last s = d then Inr s else Inl RuntimeError)"

text \<open>
  \<open>reshape\<close> (and \<open>view\<close>, which agrees with it on the contiguous tensors it is called on
  here). A target dimension \<open>None\<close> is Python's \<open>-1\<close>: it is inferred, and the call raises
  when it cannot be (more than one \<open>-1\<close>, a zero product of the known dimensions, or a
  total that is not a multiple of it).
\<close>

definition known_dim :: "nat option \<Rightarrow> nat" where
  "known_dim d = (case d of None \<Rightarrow> 1 | Some n \<Rightarrow> n)"

definition reshape :: "shape \<Rightarrow> nat option list \<Rightarrow> error + shape" where
  "reshape s tgt =
     (let total = prod_list s;
          known = prod_list (map known_dim tgt);
          holes = length (filter (\<lambda>d. d = None) tgt)
      in if holes = 0 then
           (if known = total then Inr (map known_dim tgt) else Inl RuntimeError)
         else if holes = 1 \<and> known \<noteq> 0 \<and> total mod known = 0 then
           Inr (map (\<lambda>d. case d of None \<Rightarrow> total div known | Some n \<Rightarrow> n) tgt)
         else Inl RuntimeError)"

definition permute :: "shape \<Rightarrow> nat list \<Rightarrow> error + shape" where
  "permute s dims =
     (if length dims = length s \<and> distinct dims \<and> list_all (\<lambda>i. i < length s) dims
      then Inr (map (\<lambda>i. s ! i) dims) else Inl RuntimeError)"

text \<open>Python's negative axis numbers count from the end.\<close>

definition norm_dim :: "nat \<Rightarrow> int \<Rightarrow> int" where
  "norm_dim rank d = (if d < 0 then d + int rank else d)"

definition transpose_t :: "shape \<Rightarrow> int \<Rightarrow> int \<Rightarrow> error + shape" where
  "transpose_t s dim0 dim1 =
     (let i = norm_dim (length s) dim0; j = norm_dim (length s) dim1
      in if 0 \<le> i \<and> i < int (length s) \<and> 0 \<le> j \<and> j < int (length s)
         then Inr (s[nat i := s ! nat j, nat j := s ! nat i]) else Inl IndexError)"

text \<open>Basic indexing \<open>x[i0, i1, ...]\<close>: \<open>All\<close> is \<open>:\<close>, \<open>At k\<close> an integer (the axis
  disappears), \<open>From k\<close> the slice \<open>k:\<close>.\<close>

datatype idx = All | At int | From nat

fun index_t :: "shape \<Rightarrow> idx list \<Rightarrow> error + shape" where
  "index_t s [] = Inr s"
| "index_t [] (i # is) = Inl IndexError"
| "index_t (d # s) (All # is) = then_e (index_t s is) (\<lambda>r. Inr (d # r))"
| "index_t (d # s) (At k # is) =
     (if - int d \<le> k \<and> k < int d then index_t s is else Inl IndexError)"
| "index_t (d # s) (From k # is) = then_e (index_t s is) (\<lambda>r. Inr ((d - k) # r))"

text \<open>Indexing the rows of a table by an integer tensor (given flattened): every entry
  must address a row.\<close>

definition index_rows :: "shape \<Rightarrow> int list \<Rightarrow> error + shape" where
  "index_rows table ix =
     (case table of
        [] \<Rightarrow> Inl IndexError
      | r # rest \<Rightarrow>
          if list_all (\<lambda>i. - int r \<le> i \<and> i < int r) ix then Inr (length ix # rest)
          else Inl IndexError)"

text \<open>Broadcasting of two shapes, aligned from the right.\<close>

definition bdim :: "nat \<Rightarrow> nat \<Rightarrow> nat option" where
  "bdim x y = (if x = y then Some x else if x = 1 then Some y else if y = 1 then Some x else None)"

fun broadcast_aligned :: "shape \<Rightarrow> shape \<Rightarrow> error + shape" where
  "broadcast_aligned [] [] = Inr []"
| "broadcast_aligned (x # xs) (y # ys) =
     (case bdim x y of
        None \<Rightarrow> Inl RuntimeError
      | Some d \<Rightarrow> then_e (broadcast_aligned xs ys) (\<lambda>r. Inr (d # r)))"
| "broadcast_aligned _ _ = Inl RuntimeError"

definition broadcast :: "shape \<Rightarrow> shape \<Rightarrow> error + shape" where
  "broadcast a b =
     (let n = max (length a) (length b)
      in broadcast_aligned (replicate (n - length a) 1 @ a) (replicate (n - length b) 1 @ b))"

text \<open>Batched matrix product \<open>a @ b\<close> of operands of rank at least 2 (the only ones that
  reach it: \<open>q\<close>, \<open>k\<close>, \<open>v\<close> and \<open>attn\<close> have rank 4).\<close>

definition matmul :: "shape \<Rightarrow> shape \<Rightarrow> error + shape" where
  "matmul a b =
     (if length a < 2 \<or> length b < 2 then Inl RuntimeError
      else if last a \<noteq> b ! (length b - 2) then Inl RuntimeError
      else then_e (broadcast (take (length a - 2) a) (take (length b - 2) b))
             (\<lambda>batch. Inr (batch @ [a ! (length a - 2), last b])))"

text \<open>\<open>torch.cat(ts, dim=-1)\<close>: all operands agree on every axis but the last.\<close>

definition cat_last :: "shape list \<Rightarrow> error + shape" where
  "cat_last ts =
     (case ts of
        [] \<Rightarrow> Inl RuntimeError
      | t # rest \<Rightarrow>
          if t \<noteq> [] \<and> list_all (\<lambda>u. u \<noteq> [] \<and> butlast u = butlast t) rest
          then Inr (butlast t @ [sum_list (map last ts)]) else Inl RuntimeError)"

text \<open>\<open>x.repeat(r0, r1, ...)\<close>: at least as many repeats as axes; missing leading axes
  are of size 1.\<close>

definition repeat_t :: "shape \<Rightarrow> nat list \<Rightarrow> error + shape" where
  "repeat_t s reps =
     (if length reps < length s then Inl RuntimeError
      else Inr (map2 (\<lambda>d r. d * r) (replicate (length reps - length s) 1 @ s) reps))"

definition unsqueeze_last :: "shape \<Rightarrow> shape" where
  "unsqueeze_last s = s @ [1]"

text \<open>
  The three \<open>einops.rearrange\<close> patterns of the source, with their keyword arguments:
  \<^item> \<open>Split_last t\<close> is \<open>'b n (p t) -> b n p t'\<close>;
  \<^item> \<open>Merge_pairs d\<close> is \<open>'b (p d) c -> b p (d c)'\<close>;
  \<^item> \<open>Join_batch b n\<close> is \<open>'(b n) p d -> b n (p d)'\<close>.
  A wrong rank or an axis that does not divide raises.
\<close>

datatype pattern = Split_last nat | Merge_pairs nat | Join_batch nat nat

fun rearrange :: "shape \<Rightarrow> pattern \<Rightarrow> error + shape" where
  "rearrange [b, n, l] (Split_last t) =
     (if t = 0 \<or> l mod t \<noteq> 0 then Inl EinopsError else Inr [b, n, l div t, t])"
| "rearrange [b, s, c] (Merge_pairs d) =
     (if d = 0 \<or> s mod d \<noteq> 0 then Inl EinopsError else Inr [b, s div d, d * c])"
| "rearrange [bn, p, d] (Join_batch b n) =
     (if bn \<noteq> b * n then Inl EinopsError else Inr [b, n, p * d])"
| "rearrange _ _ = Inl EinopsError"

text \<open>\<open>torch.arange(start, stop)\<close> with step 1 raises when \<open>stop < start\<close>.\<close>

definition arange :: "int \<Rightarrow> int \<Rightarrow> error + int list" where
  "arange start stop = (if stop < start then Inl RuntimeError else Inr [start..stop - 1])"

section \<open>WindowAttention\<close>

text \<open>
  The module's fields that shapes and construction depend on. The buffer
  \<open>relative_coords_table\<close> holds floats (the offsets divided by the window extent minus
  one, scaled and log-compressed; a division by zero there yields inf or nan, not an
  exception), so only its shape is kept; the buffer \<open>relative_position_index\<close> holds
  integers and is kept whole.
\<close>

record window_attention =
  wa_dim :: nat
  window_size :: "nat \<times> nat"
  pretrained_window_size :: "nat \<times> nat"
  wa_num_heads :: nat
  relative_coords_table :: shape
  relative_position_index :: "int list list"
  has_qkv_bias :: bool

text \<open>\<open>torch.meshgrid([hs, ws])\<close> stacked: two grids of \<open>length hs\<close> rows and
  \<open>length ws\<close> columns, the first constant along rows, the second along columns.\<close>

definition meshgrid :: "int list \<Rightarrow> int list \<Rightarrow> int list list list" where
  "meshgrid hs ws = [map (\<lambda>h. map (\<lambda>w. h) ws) hs, map (\<lambda>h. map (\<lambda>w. w) ws) hs]"

text \<open>Lines 114 to 123 of the source, statement by statement: first \<open>coords\<close> and
  \<open>coords_flatten\<close>, then the pairwise differences, shifted, scaled and summed.\<close>

definition coords_flatten :: "int list \<Rightarrow> int list \<Rightarrow> int list list" where
  "coords_flatten coords_h coords_w = map concat (meshgrid coords_h coords_w)"

definition relative_position_index_of :: "nat \<times> nat \<Rightarrow> int list list \<Rightarrow> int list list" where
  "relative_position_index_of ws flat =
     (let relative_coords = map (\<lambda>row. map (\<lambda>x. map (\<lambda>y. x - y) row) row) flat;
          n = fst ws * snd ws;
          permuted = map (\<lambda>i. map (\<lambda>j. map (\<lambda>c. relative_coords ! c ! i ! j) [0..<2]) [0..<n]) [0..<n];
          shifted0 = map (map (\<lambda>v. v[0 := v ! 0 + (int (fst ws) - 1)])) permuted;
          shifted1 = map (map (\<lambda>v. v[1 := v ! 1 + (int (snd ws) - 1)])) shifted0;
          scaled = map (map (\<lambda>v. v[0 := v ! 0 * (2 * int (snd ws) - 1)])) shifted1
      in map (map sum_list) scaled)"

definition WindowAttention_init ::
  "nat \<Rightarrow> nat \<times> nat \<Rightarrow> nat \<Rightarrow> bool \<Rightarrow> nat \<times> nat \<Rightarrow> error + window_attention" where
  "WindowAttention_init d ws nh qkv_bias pws =
     then_e (arange (- (int (fst ws) - 1)) (int (fst ws))) (\<lambda>relative_coords_h.
     then_e (arange (- (int (snd ws) - 1)) (int (snd ws))) (\<lambda>relative_coords_w.
     then_e (arange 0 (int (fst ws))) (\<lambda>coords_h.
     then_e (arange 0 (int (snd ws))) (\<lambda>coords_w.
       Inr \<lparr> wa_dim = d, window_size = ws, pretrained_window_size = pws,
             wa_num_heads = nh,
             relative_coords_table = [1, length relative_coords_h, length relative_coords_w, 2],
             relative_position_index =
               relative_position_index_of ws (coords_flatten coords_h coords_w),
             has_qkv_bias = qkv_bias \<rparr>))))"

text \<open>\<open>cpb_mlp\<close> is Linear(2, 512), ReLU, Linear(512, num_heads); flattened by
  \<open>.view(-1, num_heads)\<close> it is the bias table.\<close>

definition cpb_mlp :: "nat \<Rightarrow> shape \<Rightarrow> error + shape" where
  "cpb_mlp nh x = then_e (linear 2 512 x) (\<lambda>h. linear 512 nh h)"

definition relative_position_bias_table :: "window_attention \<Rightarrow> error + shape" where
  "relative_position_bias_table self =
     then_e (cpb_mlp (wa_num_heads self) (relative_coords_table self))
       (\<lambda>t. reshape t [None, Some (wa_num_heads self)])"

text \<open>The branch \<open>mask is not None\<close> of the forward pass.\<close>

definition add_mask :: "nat \<Rightarrow> nat \<Rightarrow> nat \<Rightarrow> shape \<Rightarrow> shape \<Rightarrow> error + shape" where
  "add_mask BW N nh attn msk =
     (case msk of
        [] \<Rightarrow> Inl IndexError
      | nW # rest \<Rightarrow>
          if nW = 0 then Inl ZeroDivisionError
          else
            then_e (reshape attn [Some (BW div nW), Some nW, Some nh, Some N, Some N]) (\<lambda>a.
            then_e (broadcast a (1 # nW # 1 # rest)) (\<lambda>a.
              reshape a [None, Some nh, Some N, Some N])))"

text \<open>\<open>WindowAttention.forward(x, mask)\<close>. Normalisation, the logit scale's clamp and
  exponential, the sigmoid, softmax and the dropouts keep the shape of their argument.\<close>

definition WindowAttention_forward ::
  "window_attention \<Rightarrow> shape \<Rightarrow> shape option \<Rightarrow> error + shape" where
  "WindowAttention_forward self x msk =
     (case x of
        [BW, N, C] \<Rightarrow>
          then_e (linear (wa_dim self) (wa_dim self * 3) x) (\<lambda>qkv.
          then_e (reshape qkv [Some BW, Some N, Some 3, Some (wa_num_heads self), None]) (\<lambda>qkv.
          then_e (permute qkv [2, 0, 3, 1, 4]) (\<lambda>qkv.
          then_e (index_t qkv [At 0]) (\<lambda>q.
          then_e (index_t qkv [At 1]) (\<lambda>k.
          then_e (index_t qkv [At 2]) (\<lambda>v.
          then_e (transpose_t k (- 2) (- 1)) (\<lambda>kT.
          then_e (matmul q kT) (\<lambda>attn.
          then_e (broadcast attn [wa_num_heads self, 1, 1]) (\<lambda>attn.
          then_e (relative_position_bias_table self) (\<lambda>table.
          then_e (index_rows table (concat (relative_position_index self))) (\<lambda>bias.
          then_e (reshape bias [Some (fst (window_size self) * snd (window_size self)),
                                Some (fst (window_size self) * snd (window_size self)), None]) (\<lambda>bias.
          then_e (permute bias [2, 0, 1]) (\<lambda>bias.
          then_e (broadcast attn (1 # bias)) (\<lambda>attn.
          then_e (case msk of None \<Rightarrow> Inr attn
                  | Some m \<Rightarrow> add_mask BW N (wa_num_heads self) attn m) (\<lambda>attn.
          then_e (matmul attn v) (\<lambda>y.
          then_e (transpose_t y 1 2) (\<lambda>y.
          then_e (reshape y [Some BW, Some N, Some C]) (\<lambda>y.
            linear (wa_dim self) (wa_dim self) y))))))))))))))))))
      | _ \<Rightarrow> Inl ValueError)"

section \<open>SegmentMerging\<close>

record segment_merging =
  sm_dim :: nat

definition SegmentMerging_init :: "nat \<Rightarrow> segment_merging" where
  "SegmentMerging_init d = \<lparr> sm_dim = d \<rparr>"

definition SegmentMerging_forward :: "segment_merging \<Rightarrow> shape \<Rightarrow> error + shape" where
  "SegmentMerging_forward self x =
     then_e (rearrange x (Merge_pairs 2)) (\<lambda>y. layer_norm (2 * sm_dim self) y)"

section \<open>FullAttention and AttentionLayer\<close>

text \<open>The two \<open>torch.einsum\<close> calls; axes with the same letter must agree up to
  broadcasting.\<close>

definition einsum_blhe_bshe :: "shape \<Rightarrow> shape \<Rightarrow> error + shape" where
  "einsum_blhe_bshe x y =
     (case (x, y) of
        ([b, l, h, e], [b', s, h', e']) \<Rightarrow>
          (case (bdim b b', bdim h h', bdim e e') of
             (Some bb, Some hh, Some ee) \<Rightarrow> Inr [bb, hh, l, s]
           | _ \<Rightarrow> Inl RuntimeError)
      | _ \<Rightarrow> Inl RuntimeError)"

definition einsum_bhls_bshd :: "shape \<Rightarrow> shape \<Rightarrow> error + shape" where
  "einsum_bhls_bshd x y =
     (case (x, y) of
        ([b, h, l, s], [b', s', h', d]) \<Rightarrow>
          (case (bdim b b', bdim h h', bdim s s') of
             (Some bb, Some hh, Some ss) \<Rightarrow> Inr [bb, l, hh, d]
           | _ \<Rightarrow> Inl RuntimeError)
      | _ \<Rightarrow> Inl RuntimeError)"

definition FullAttention_forward :: "shape \<Rightarrow> shape \<Rightarrow> shape \<Rightarrow> error + shape" where
  "FullAttention_forward queries keys vals =
     (case queries of
        [B, L, H, E] \<Rightarrow>
          (case vals of
             [_, S, _, D] \<Rightarrow>
               then_e (einsum_blhe_bshe queries keys) (\<lambda>scores.
               then_e (einsum_bhls_bshd scores vals) (\<lambda>V.
                 broadcast V queries))
           | _ \<Rightarrow> Inl ValueError)
      | _ \<Rightarrow> Inl ValueError)"

record attention_layer =
  al_d_model :: nat
  al_n_heads :: nat
  al_d_keys :: nat
  al_d_values :: nat
  al_mix :: bool

text \<open>\<open>d_keys or (d_model // n_heads)\<close>: an argument that is \<open>None\<close> or \<open>0\<close> takes the
  default, whose integer division raises on \<open>n_heads = 0\<close>.\<close>

definition or_default :: "nat option \<Rightarrow> nat \<Rightarrow> nat \<Rightarrow> error + nat" where
  "or_default d d_model n_heads =
     (if d = None \<or> d = Some 0 then
        (if n_heads = 0 then Inl ZeroDivisionError else Inr (d_model div n_heads))
      else Inr (known_dim d))"

definition AttentionLayer_init ::
  "nat \<Rightarrow> nat \<Rightarrow> nat option \<Rightarrow> nat option \<Rightarrow> bool \<Rightarrow> error + attention_layer" where
  "AttentionLayer_init d_model n_heads d_keys d_values mix =
     then_e (or_default d_keys d_model n_heads) (\<lambda>dk.
     then_e (or_default d_values d_model n_heads) (\<lambda>dv.
       Inr \<lparr> al_d_model = d_model, al_n_heads = n_heads, al_d_keys = dk, al_d_values = dv,
             al_mix = mix \<rparr>))"

definition AttentionLayer_forward ::
  "attention_layer \<Rightarrow> shape \<times> shape \<times> shape \<Rightarrow> error + shape" where
  "AttentionLayer_forward self x =
     (case x of (queries, keys, vals) \<Rightarrow>
       (case queries of
          [B, L, _] \<Rightarrow>
            (case keys of
               [_, S, _] \<Rightarrow>
                 then_e (layer_norm (al_d_model self) queries) (\<lambda>queries.
                 then_e (layer_norm (al_d_model self) keys) (\<lambda>keys.
                 then_e (layer_norm (al_d_model self) vals) (\<lambda>vals.
                 then_e (linear (al_d_model self) (al_d_keys self * al_n_heads self) queries) (\<lambda>q.
                 then_e (reshape q [Some B, Some L, Some (al_n_heads self), None]) (\<lambda>queries.
                 then_e (linear (al_d_model self) (al_d_keys self * al_n_heads self) keys) (\<lambda>k.
                 then_e (reshape k [Some B, Some S, Some (al_n_heads self), None]) (\<lambda>keys.
                 then_e (linear (al_d_model self) (al_d_values self * al_n_heads self) vals) (\<lambda>v.
                 then_e (reshape v [Some B, Some S, Some (al_n_heads self), None]) (\<lambda>vals.
                 then_e (FullAttention_forward queries keys vals) (\<lambda>out.
                 then_e (if al_mix self then transpose_t out 2 1 else Inr out) (\<lambda>out.
                 then_e (reshape out [Some B, Some L, None]) (\<lambda>out.
                 then_e (layer_norm (al_d_model self) out) (\<lambda>n1.
                 then_e (linear (al_d_values self * al_n_heads self) (al_d_model self) n1) (\<lambda>p.
                   broadcast p out))))))))))))))
             | _ \<Rightarrow> Inl ValueError)
        | _ \<Rightarrow> Inl ValueError))"

section \<open>Named parameters\<close>

text \<open>
  The names \<open>named_parameters()\<close> yields for each module, in its order: a module's own
  parameters in registration order, then those of its children, prefixed by the child's
  attribute name (the position, for the children of an \<open>nn.Sequential\<close>).
\<close>

definition prefixed :: "string \<Rightarrow> string list \<Rightarrow> string list" where
  "prefixed p names = map (\<lambda>n. p @ ''.'' @ n) names"

definition Linear_parameters :: "string list" where
  "Linear_parameters = [''weight'', ''bias'']"

definition WindowAttention_parameters :: "window_attention \<Rightarrow> string list" where
  "WindowAttention_parameters self =
     [''logit_scale'']
     @ (if has_qkv_bias self then [''q_bias'', ''v_bias''] else [])
     @ [''cpb_mlp.0.weight'', ''cpb_mlp.0.bias'', ''cpb_mlp.2.weight'']
     @ [''qkv.weight'']
     @ prefixed ''proj'' Linear_parameters"

definition SegmentMerging_parameters :: "string list" where
  "SegmentMerging_parameters = prefixed ''norm'' [''weight'', ''bias'']"

definition AttentionLayer_parameters :: "string list" where
  "AttentionLayer_parameters =
     prefixed ''query_projection'' Linear_parameters
     @ prefixed ''key_projection'' Linear_parameters
     @ prefixed ''value_projection'' Linear_parameters
     @ prefixed ''out_projection'' Linear_parameters
     @ prefixed ''norm'' [''weight'', ''bias'']
     @ prefixed ''norm_1'' [''weight'', ''bias'']"

text \<open>Python's \<open>sub in s\<close> on strings.\<close>

fun starts_with :: "string \<Rightarrow> string \<Rightarrow> bool" where
  "starts_with [] s = True"
| "starts_with (p # ps) [] = False"
| "starts_with (p # ps) (c # cs) = (p = c \<and> starts_with ps cs)"

fun contains :: "string \<Rightarrow> string \<Rightarrow> bool" where
  "contains sub [] = (sub = [])"
| "contains sub (c # cs) = (starts_with sub (c # cs) \<or> contains sub cs)"

section \<open>HUTformer\<close>

record decoder_modules =
  decoder_1 :: window_attention
  decoder_project_0 :: "nat \<times> nat"
  decoder_2 :: "attention_layer \<times> window_attention"
  decoder_3 :: "attention_layer \<times> window_attention"
  decoder_project :: "nat \<times> nat"

text \<open>
  A linear layer is its pair (in_features, out_features). The decoder's modules exist
  only on a model built in mode \<open>'decoder'\<close>. \<open>named_parameters\<close> pairs every parameter
  name with its \<open>requires_grad\<close> flag.
\<close>

record hutformer =
  mode :: string
  NUM_NODES :: nat
  len_hist :: nat
  len_pred :: nat
  len_patch :: nat
  num_patch :: nat
  num_heads :: nat
  embed_dim :: nat
  dim_SE :: nat
  dim_U :: nat
  SE :: shape
  embedding :: "nat \<times> nat"
  STPE :: "nat \<times> nat"
  encoder_1 :: window_attention
  encoder_2 :: "segment_merging \<times> window_attention"
  encoder_3 :: "segment_merging \<times> window_attention"
  encoder_project :: "nat \<times> nat"
  decoder :: "decoder_modules option"
  named_parameters :: "(string \<times> bool) list"

text \<open>
  The checkpoint file is outside the program: \<open>Readable\<close> stands for a file that
  \<open>torch.load\<close> reads, that has the key \<open>"model_state_dict"\<close> and whose tensors fit the
  encoder's parameters (\<open>strict=False\<close> tolerates missing and unexpected names only);
  \<open>Unreadable\<close> for any other.
\<close>

datatype checkpoint = Readable | Unreadable

definition load_state_dict :: "checkpoint \<Rightarrow> error + unit" where
  "load_state_dict ck = (case ck of Readable \<Rightarrow> Inr () | Unreadable \<Rightarrow> Inl CheckpointError)"

definition encoder_parameter_names ::
  "window_attention \<Rightarrow> window_attention \<Rightarrow> window_attention \<Rightarrow> string list" where
  "encoder_parameter_names e1 e2 e3 =
     [''SE'']
     @ prefixed ''embedding'' Linear_parameters
     @ prefixed ''STPE'' Linear_parameters
     @ prefixed ''encoder_1'' (WindowAttention_parameters e1)
     @ prefixed ''encoder_2.0'' SegmentMerging_parameters
     @ prefixed ''encoder_2.1'' (WindowAttention_parameters e2)
     @ prefixed ''encoder_3.0'' SegmentMerging_parameters
     @ prefixed ''encoder_3.1'' (WindowAttention_parameters e3)
     @ prefixed ''encoder_project'' Linear_parameters"

definition decoder_parameter_names :: "decoder_modules \<Rightarrow> string list" where
  "decoder_parameter_names d =
     prefixed ''decoder_1'' (WindowAttention_parameters (decoder_1 d))
     @ prefixed ''decoder_project_0'' Linear_parameters
     @ prefixed ''decoder_2.0'' AttentionLayer_parameters
     @ prefixed ''decoder_2.1'' (WindowAttention_parameters (snd (decoder_2 d)))
     @ prefixed ''decoder_3.0'' AttentionLayer_parameters
     @ prefixed ''decoder_3.1'' (WindowAttention_parameters (snd (decoder_3 d)))
     @ prefixed ''decoder_project'' Linear_parameters"

text \<open>Every parameter is created with \<open>requires_grad = True\<close>.\<close>

definition fresh_parameters :: "string list \<Rightarrow> (string \<times> bool) list" where
  "fresh_parameters names = map (\<lambda>n. (n, True)) names"

text \<open>Lines 311 to 313: the loop over \<open>self.named_parameters()\<close>.\<close>

definition freeze_loop :: "(string \<times> bool) list \<Rightarrow> (string \<times> bool) list" where
  "freeze_loop ps =
     map (\<lambda>(name, para). if \<not> contains ''decoder'' name then (name, False) else (name, para)) ps"

text \<open>
  \<open>HUTformer.__init__\<close>. Lengths and counts are natural numbers, and \<open>int(x / y)\<close> on them
  is \<open>x div y\<close>. The two \<open>trunc_normal_\<close> calls fill float32 tensors; they are made
  with \<open>std = .02\<close>, do not raise and change no shape, so they leave no trace here. The
  report printed at the end is not modelled.
\<close>

definition HUTformer_init ::
  "nat \<Rightarrow> nat \<Rightarrow> nat \<Rightarrow> nat \<Rightarrow> string \<Rightarrow> checkpoint option \<Rightarrow> error + hutformer" where
  "HUTformer_init nodes hist pred patch md pre_train =
     (if md \<notin> set [''encoder'', ''decoder''] then Inl AssertionError
      else if patch = 0 then Inl ZeroDivisionError
      else
        let np = hist div patch; heads = 8; ed = 64; se = 16; du = np * ed in
        then_e (WindowAttention_init ed (2, np div 2) heads True (0, 0)) (\<lambda>e1.
        then_e (WindowAttention_init (ed * 2) (2, np div 4) heads True (0, 0)) (\<lambda>e2.
        then_e (WindowAttention_init (ed * 4) (2, np div 8) heads True (0, 0)) (\<lambda>e3.
          let self = \<lparr> mode = md, NUM_NODES = nodes, len_hist = hist, len_pred = pred,
                       len_patch = patch, num_patch = np, num_heads = heads, embed_dim = ed,
                       dim_SE = se, dim_U = du,
                       SE = [nodes, se],
                       embedding = (patch, ed),
                       STPE = (np * ed + se + 2, du),
                       encoder_1 = e1,
                       encoder_2 = (SegmentMerging_init ed, e2),
                       encoder_3 = (SegmentMerging_init (ed * 2), e3),
                       encoder_project = (du, pred),
                       decoder = None,
                       named_parameters = fresh_parameters (encoder_parameter_names e1 e2 e3) \<rparr>
          in if md = ''encoder'' then Inr self
             else
               then_e (case pre_train of None \<Rightarrow> Inr () | Some ck \<Rightarrow> load_state_dict ck) (\<lambda>_.
               then_e (WindowAttention_init ed (2, np div 2) heads True (0, 0)) (\<lambda>d1.
               then_e (AttentionLayer_init ed heads None None True) (\<lambda>a2.
               then_e (WindowAttention_init ed (2, np div 2) heads True (0, 0)) (\<lambda>w2.
               then_e (AttentionLayer_init ed heads None None True) (\<lambda>a3.
               then_e (WindowAttention_init ed (2, np div 2) heads True (0, 0)) (\<lambda>w3.
                 let dec = \<lparr> decoder_1 = d1, decoder_project_0 = (ed * 2, ed),
                              decoder_2 = (a2, w2), decoder_3 = (a3, w3),
                              decoder_project = (ed, patch) \<rparr>;
                     ps = named_parameters self @ fresh_parameters (decoder_parameter_names dec)
                 in Inr (self \<lparr> decoder := Some dec,
                               named_parameters :=
                                 (if md = ''decoder'' then freeze_loop ps else ps) \<rparr>)))))))))))"

subsection \<open>The forward pass\<close>

text \<open>
  The forward pass is written once, over any interpretation \<open>T\<close> of the tensor type and
  of the library operations and submodule calls it makes. A submodule call may draw
  random numbers (dropout), so it takes and returns the generator's state \<open>'g\<close>; the
  parameters and the modules' training flag are part of the interpretation.
\<close>

datatype submodule =
    M_embedding | M_STPE | M_encoder_1 | M_encoder_2 | M_encoder_3 | M_encoder_project
  | M_decoder_1 | M_decoder_project_0 | M_decoder_2 | M_decoder_3 | M_decoder_project

record ('t, 'g) torch =
  t_shape :: "'t \<Rightarrow> shape"
  t_index :: "'t \<Rightarrow> idx list \<Rightarrow> error + 't"
  t_permute :: "'t \<Rightarrow> nat list \<Rightarrow> error + 't"
  t_rearrange :: "'t \<Rightarrow> pattern \<Rightarrow> error + 't"
  t_reshape :: "'t \<Rightarrow> nat option list \<Rightarrow> error + 't"
  t_cat :: "'t list \<Rightarrow> error + 't"
  t_repeat :: "'t \<Rightarrow> nat list \<Rightarrow> error + 't"
  t_unsqueeze :: "'t \<Rightarrow> 't"
  t_SE :: "'t"
  t_call :: "submodule \<Rightarrow> 't list \<Rightarrow> 'g \<Rightarrow> error + ('t \<times> 'g)"

definition ret :: "'a \<Rightarrow> 'g \<Rightarrow> error + ('a \<times> 'g)" where
  "ret x g = Inr (x, g)"

definition lift :: "error + 'a \<Rightarrow> 'g \<Rightarrow> error + ('a \<times> 'g)" where
  "lift r g = (case r of Inl e \<Rightarrow> Inl e | Inr x \<Rightarrow> Inr (x, g))"

definition bnd ::
  "('g \<Rightarrow> error + ('a \<times> 'g)) \<Rightarrow> ('a \<Rightarrow> 'g \<Rightarrow> error + ('b \<times> 'g)) \<Rightarrow> 'g \<Rightarrow> error + ('b \<times> 'g)" where
  "bnd m k g = (case m g of Inl e \<Rightarrow> Inl e | Inr (x, g') \<Rightarrow> k x g')"

definition forward ::
  "('t, 'g) torch \<Rightarrow> hutformer \<Rightarrow> 't \<Rightarrow> 't \<Rightarrow> int \<Rightarrow> int \<Rightarrow> bool \<Rightarrow> 'k \<Rightarrow>
   'g \<Rightarrow> error + ('t \<times> 'g)" where
  "forward T self history_data future_data batch_seen epoch train kwargs =
     (case t_shape T history_data of
        [B, L, N, C] \<Rightarrow>
          bnd (lift (t_index T history_data [All, All, All, At 0])) (\<lambda>h0.
          bnd (lift (t_permute T h0 [0, 2, 1])) (\<lambda>h1.
          bnd (lift (t_rearrange T h1 (Split_last (len_patch self)))) (\<lambda>patches.
          bnd (t_call T M_embedding [patches]) (\<lambda>e.
          bnd (lift (t_reshape T e [Some B, Some N, None])) (\<lambda>S.
          bnd (lift (t_repeat T (t_SE T) [B, 1, 1])) (\<lambda>se.
          bnd (lift (t_index T history_data [All, At (- 1), All, From 1])) (\<lambda>aux.
          bnd (lift (t_cat T [S, se, aux])) (\<lambda>S.
          bnd (t_call T M_STPE [S]) (\<lambda>u.
          bnd (lift (t_reshape T u [Some (B * N), None, Some (embed_dim self)])) (\<lambda>U.
          bnd (t_call T M_encoder_1 [U]) (\<lambda>H_1.
          bnd (t_call T M_encoder_2 [H_1]) (\<lambda>H_2.
          bnd (t_call T M_encoder_3 [H_2]) (\<lambda>H_3.
          bnd (lift (t_rearrange T H_3 (Join_batch B N))) (\<lambda>flat.
          bnd (t_call T M_encoder_project [flat]) (\<lambda>predict_encoder.
            if mode self = ''encoder'' then
              bnd (lift (t_permute T predict_encoder [0, 2, 1])) (\<lambda>p.
                ret (t_unsqueeze T p))
            else
              bnd (lift (t_rearrange T predict_encoder (Split_last (len_patch self)))) (\<lambda>patches.
              bnd (t_call T M_embedding [patches]) (\<lambda>e.
              bnd (lift (t_reshape T e [Some B, Some N, None])) (\<lambda>S.
              bnd (lift (t_repeat T (t_SE T) [B, 1, 1])) (\<lambda>se.
              bnd (lift (t_index T future_data [All, At (- 1), All, From 1])) (\<lambda>aux.
              bnd (lift (t_cat T [S, se, aux])) (\<lambda>S.
              bnd (t_call T M_STPE [S]) (\<lambda>u.
              bnd (lift (t_reshape T u [Some (B * N), None, Some (embed_dim self)])) (\<lambda>U.
              bnd (t_call T M_decoder_1 [U]) (\<lambda>D_1.
              bnd (t_call T M_decoder_project_0 [H_2]) (\<lambda>q0.
              bnd (lift (t_repeat T q0 [1, 2, 1])) (\<lambda>q.
              bnd (t_call T M_decoder_2 [q, D_1, D_1]) (\<lambda>D_2.
              bnd (t_call T M_decoder_3 [H_1, D_2, D_2]) (\<lambda>D_3.
              bnd (t_call T M_decoder_project [D_3]) (\<lambda>d.
              bnd (lift (t_reshape T d [Some B, Some N, None])) (\<lambda>r.
              bnd (lift (t_permute T r [0, 2, 1])) (\<lambda>p.
                ret (t_unsqueeze T p))))))))))))))))))))))))))))))))
      | _ \<Rightarrow> lift (Inl ValueError))"

subsection \<open>The interpretation on shapes\<close>

definition apply_linear :: "nat \<times> nat \<Rightarrow> shape \<Rightarrow> error + shape" where
  "apply_linear layer x = linear (fst layer) (snd layer) x"

definition apply_merge_attend :: "segment_merging \<times> window_attention \<Rightarrow> shape \<Rightarrow> error + shape" where
  "apply_merge_attend seq x =
     then_e (SegmentMerging_forward (fst seq) x) (\<lambda>y. WindowAttention_forward (snd seq) y None)"

definition apply_cross_attend ::
  "attention_layer \<times> window_attention \<Rightarrow> shape \<times> shape \<times> shape \<Rightarrow> error + shape" where
  "apply_cross_attend seq x =
     then_e (AttentionLayer_forward (fst seq) x) (\<lambda>y. WindowAttention_forward (snd seq) y None)"

definition with_decoder :: "hutformer \<Rightarrow> (decoder_modules \<Rightarrow> error + shape) \<Rightarrow> error + shape" where
  "with_decoder self f = (case decoder self of None \<Rightarrow> Inl AttributeError | Some d \<Rightarrow> f d)"

fun shape_call :: "hutformer \<Rightarrow> submodule \<Rightarrow> shape list \<Rightarrow> error + shape" where
  "shape_call self M_embedding [x] = apply_linear (embedding self) x"
| "shape_call self M_STPE [x] = apply_linear (STPE self) x"
| "shape_call self M_encoder_1 [x] = WindowAttention_forward (encoder_1 self) x None"
| "shape_call self M_encoder_2 [x] = apply_merge_attend (encoder_2 self) x"
| "shape_call self M_encoder_3 [x] = apply_merge_attend (encoder_3 self) x"
| "shape_call self M_encoder_project [x] = apply_linear (encoder_project self) x"
| "shape_call self M_decoder_1 [x] =
     with_decoder self (\<lambda>d. WindowAttention_forward (decoder_1 d) x None)"
| "shape_call self M_decoder_project_0 [x] =
     with_decoder self (\<lambda>d. apply_linear (decoder_project_0 d) x)"
| "shape_call self M_decoder_2 [q, k, v] =
     with_decoder self (\<lambda>d. apply_cross_attend (decoder_2 d) (q, k, v))"
| "shape_call self M_decoder_3 [q, k, v] =
     with_decoder self (\<lambda>d. apply_cross_attend (decoder_3 d) (q, k, v))"
| "shape_call self M_decoder_project [x] =
     with_decoder self (\<lambda>d. apply_linear (decoder_project d) x)"
| "shape_call self _ _ = Inl ValueError"

definition shape_torch :: "hutformer \<Rightarrow> (shape, unit) torch" where
  "shape_torch self =
     \<lparr> t_shape = (\<lambda>s. s),
       t_index = index_t,
       t_permute = permute,
       t_rearrange = rearrange,
       t_reshape = reshape,
       t_cat = cat_last,
       t_repeat = repeat_t,
       t_unsqueeze = unsqueeze_last,
       t_SE = SE self,
       t_call = (\<lambda>m args. lift (shape_call self m args)) \<rparr>"

text \<open>The shape the forward pass returns on inputs of the given shapes.\<close>

definition forward_shape :: "hutformer \<Rightarrow> shape \<Rightarrow> shape \<Rightarrow> error + shape" where
  "forward_shape self history future =
     (case forward (shape_torch self) self history future 0 0 False () () of
        Inl e \<Rightarrow> Inl e
      | Inr (s, _) \<Rightarrow> Inr s)"

section \<open>Element values of SegmentMerging and FullAttention\<close>

text \<open>
  For the two modules whose contract speaks of elements, a tensor is its shape together
  with the function from an index (one position per axis) to the element there. Each
  operation computes the shape as above, so it raises exactly when the shape operation
  does. FullAttention's elements are exact reals, not floats.
\<close>

record 'a tensor =
  dims :: shape
  elem :: "nat list \<Rightarrow> 'a"

text \<open>\<open>rearrange(x, 'b (p d) c -> b p (d c)', d=2)\<close>: position \<open>j = d * c + ci\<close> of output
  token \<open>p\<close> is channel \<open>ci\<close> of input position \<open>p * 2 + d\<close>.\<close>

definition rearrange_merge_pairs :: "'a tensor \<Rightarrow> error + 'a tensor" where
  "rearrange_merge_pairs x =
     then_e (rearrange (dims x) (Merge_pairs 2)) (\<lambda>s.
       Inr \<lparr> dims = s,
             elem = (\<lambda>ix. case ix of
                        [b, p, j] \<Rightarrow> elem x [b, p * 2 + j div (dims x ! 2), j mod (dims x ! 2)]
                      | _ \<Rightarrow> elem x ix) \<rparr>)"

text \<open>The vector along the last axis that passes through index \<open>ix\<close>.\<close>

definition last_axis :: "'a tensor \<Rightarrow> nat list \<Rightarrow> 'a list" where
  "last_axis x ix = map (\<lambda>j. elem x (butlast ix @ [j])) [0..<last (dims x)]"

text \<open>\<open>nn.LayerNorm(d)\<close> normalises every vector along the last axis; what it does to
  one vector is the parameter \<open>nrm\<close>.\<close>

definition layer_norm_values :: "('a list \<Rightarrow> 'a list) \<Rightarrow> nat \<Rightarrow> 'a tensor \<Rightarrow> error + 'a tensor" where
  "layer_norm_values nrm d x =
     then_e (layer_norm d (dims x)) (\<lambda>s.
       Inr \<lparr> dims = s, elem = (\<lambda>ix. nrm (last_axis x ix) ! last ix) \<rparr>)"

definition SegmentMerging_forward_values ::
  "('a list \<Rightarrow> 'a list) \<Rightarrow> segment_merging \<Rightarrow> 'a tensor \<Rightarrow> error + 'a tensor" where
  "SegmentMerging_forward_values nrm self x =
     then_e (rearrange_merge_pairs x) (\<lambda>y. layer_norm_values nrm (2 * sm_dim self) y)"

text \<open>Reading a broadcast operand: its shape is aligned from the right, and an axis of
  size 1 is read at position 0.\<close>

definition bix :: "shape \<Rightarrow> nat list \<Rightarrow> nat list" where
  "bix s ix = map2 (\<lambda>d i. if d = 1 then 0 else i) s (drop (length ix - length s) ix)"

definition bsize :: "nat \<Rightarrow> nat \<Rightarrow> nat" where
  "bsize x y = (if x = 1 then y else x)"

definition einsum_blhe_bshe_values :: "real tensor \<Rightarrow> real tensor \<Rightarrow> error + real tensor" where
  "einsum_blhe_bshe_values x y =
     then_e (einsum_blhe_bshe (dims x) (dims y)) (\<lambda>s.
       Inr \<lparr> dims = s,
             elem = (\<lambda>ix. case ix of
                        [b, h, l, s] \<Rightarrow>
                          sum_list (map (\<lambda>e. elem x (bix (dims x) [b, l, h, e])
                                              * elem y (bix (dims y) [b, s, h, e]))
                                     [0..<bsize (dims x ! 3) (dims y ! 3)])
                      | _ \<Rightarrow> 0) \<rparr>)"

definition einsum_bhls_bshd_values :: "real tensor \<Rightarrow> real tensor \<Rightarrow> error + real tensor" where
  "einsum_bhls_bshd_values x y =
     then_e (einsum_bhls_bshd (dims x) (dims y)) (\<lambda>s.
       Inr \<lparr> dims = s,
             elem = (\<lambda>ix. case ix of
                        [b, l, h, d] \<Rightarrow>
                          sum_list (map (\<lambda>s. elem x (bix (dims x) [b, h, l, s])
                                              * elem y (bix (dims y) [b, s, h, d]))
                                     [0..<bsize (dims x ! 3) (dims y ! 1)])
                      | _ \<Rightarrow> 0) \<rparr>)"

definition scale_by :: "real \<Rightarrow> real tensor \<Rightarrow> real tensor" where
  "scale_by c x = x \<lparr> elem := (\<lambda>ix. c * elem x ix) \<rparr>"

definition softmax_last :: "real tensor \<Rightarrow> real tensor" where
  "softmax_last x = x \<lparr> elem := (\<lambda>ix. exp (elem x ix) / sum_list (map exp (last_axis x ix))) \<rparr>"

text \<open>\<open>nn.Dropout\<close> multiplies each element by a factor: 1 in evaluation mode; 0 or
  \<open>1 / (1 - p)\<close>, drawn at random, in training mode. The factors are the parameter \<open>keep\<close>.\<close>

definition dropout_values :: "(nat list \<Rightarrow> real) \<Rightarrow> real tensor \<Rightarrow> real tensor" where
  "dropout_values keep x = x \<lparr> elem := (\<lambda>ix. elem x ix * keep ix) \<rparr>"

definition add_values :: "real tensor \<Rightarrow> real tensor \<Rightarrow> error + real tensor" where
  "add_values x y =
     then_e (broadcast (dims x) (dims y)) (\<lambda>s.
       Inr \<lparr> dims = s, elem = (\<lambda>ix. elem x (bix (dims x) ix) + elem y (bix (dims y) ix)) \<rparr>)"

text \<open>\<open>self.scale or 1./torch.sqrt(torch.tensor(E))\<close>: a scale that is \<open>None\<close> or zero
  takes the default.\<close>

definition scale_or_default :: "real option \<Rightarrow> nat \<Rightarrow> real" where
  "scale_or_default sc E =
     (case sc of None \<Rightarrow> 1 / sqrt (real E) | Some c \<Rightarrow> if c = 0 then 1 / sqrt (real E) else c)"

definition FullAttention_forward_values ::
  "real option \<Rightarrow> (nat list \<Rightarrow> real) \<Rightarrow> real tensor \<Rightarrow> real tensor \<Rightarrow> real tensor \<Rightarrow>
   error + real tensor" where
  "FullAttention_forward_values self_scale keep queries keys vals =
     (case dims queries of
        [B, L, H, E] \<Rightarrow>
          (case dims vals of
             [_, S, _, D] \<Rightarrow>
               let scale = scale_or_default self_scale E in
               then_e (einsum_blhe_bshe_values queries keys) (\<lambda>scores.
               let A = dropout_values keep (softmax_last (scale_by scale scores)) in
               then_e (einsum_bhls_bshd_values A vals) (\<lambda>V.
                 add_values V queries))
           | _ \<Rightarrow> Inl ValueError)
      | _ \<Rightarrow> Inl ValueError)"

text \<open>The contract in the specification's words: the attention weight of key position
  \<open>s\<close> for query position \<open>l\<close> (per batch entry \<open>b\<close> and head \<open>h\<close>) is the softmax over
  the key positions of the scaled dot products, times the dropout factor.\<close>

definition attention_score :: "real tensor \<Rightarrow> real tensor \<Rightarrow> nat \<Rightarrow> nat \<Rightarrow> nat \<Rightarrow> nat \<Rightarrow> nat \<Rightarrow> real" where
  "attention_score q k E b h l s = (\<Sum>e \<leftarrow> [0..<E]. elem q [b, l, h, e] * elem k [b, s, h, e])"

definition attention_weight ::
  "real \<Rightarrow> (nat list \<Rightarrow> real) \<Rightarrow> real tensor \<Rightarrow> real tensor \<Rightarrow> nat \<Rightarrow> nat \<Rightarrow> nat \<Rightarrow> nat \<Rightarrow> nat \<Rightarrow> nat \<Rightarrow> real" where
  "attention_weight scale keep q k S E b h l s =
     exp (scale * attention_score q k E b h l s)
       / (\<Sum>s' \<leftarrow> [0..<S]. exp (scale * attention_score q k E b h l s'))
     * keep [b, h, l, s]"

text \<open>Construction followed by one forward call, and whether construction succeeds at all.\<close>

definition construct_and_run ::
  "nat \<Rightarrow> nat \<Rightarrow> nat \<Rightarrow> nat \<Rightarrow> string \<Rightarrow> checkpoint option \<Rightarrow> shape \<Rightarrow> shape \<Rightarrow> error + shape" where
  "construct_and_run nodes hist pred patch md pre_train history future =
     then_e (HUTformer_init nodes hist pred patch md pre_train) (\<lambda>m. forward_shape m history future)"

definition constructs :: "nat \<Rightarrow> nat \<Rightarrow> nat \<Rightarrow> nat \<Rightarrow> string \<Rightarrow> checkpoint option \<Rightarrow> bool" where
  "constructs nodes hist pred patch md pre_train =
     (case HUTformer_init nodes hist pred patch md pre_train of Inl e \<Rightarrow> False | Inr m \<Rightarrow> True)"

section \<open>Theorems\<close>

subsection \<open>The relative position index\<close>

lemma upto_as_map: "[0..int n - 1] = map int [0..<n]"
proof (induction n)
  case 0
  show ?case by simp
next
  case (Suc n)
  have "[0..int (Suc n) - 1] = [0..int n - 1] @ [int n]"
    using upto_rec2 [of 0 "int n"] by simp
  with Suc show ?case by simp
qed

lemma concat_grid_nth:
  assumes "k < length hs * length ws"
  shows "concat (map (\<lambda>h. map (g h) ws) hs) ! k = g (hs ! (k div length ws)) (ws ! (k mod length ws))"
  using assms
proof (induction hs arbitrary: k)
  case Nil
  then show ?case by simp
next
  case (Cons h hs)
  have pos: "0 < length ws" using Cons.prems by (cases ws) auto
  show ?case
  proof (cases "k < length ws")
    case True
    then show ?thesis by (simp add: nth_append)
  next
    case False
    then have ge: "length ws \<le> k" by simp
    have lt: "k - length ws < length hs * length ws" using Cons.prems ge by simp
    have d: "k div length ws = Suc ((k - length ws) div length ws)"
      using ge pos by (simp add: le_div_geq)
    have m: "k mod length ws = (k - length ws) mod length ws"
      using ge by (simp add: le_mod_geq)
    show ?thesis using False Cons.IH [OF lt] by (simp add: nth_append d m)
  qed
qed

lemma concat_grid_length: "length (concat (map (\<lambda>h. map (g h) ws) hs)) = length hs * length ws"
  by (induction hs) auto

lemma rpi_length: "length (relative_position_index_of (Wh, Ww) flat) = Wh * Ww"
  by (simp add: relative_position_index_of_def Let_def)

lemma rpi_row_length: "i < Wh * Ww \<Longrightarrow> length (relative_position_index_of (Wh, Ww) flat ! i) = Wh * Ww"
  by (simp add: relative_position_index_of_def Let_def)

lemma rpi_from_flat:
  assumes "length cf0 = Wh * Ww" "length cf1 = Wh * Ww" "i < Wh * Ww" "j < Wh * Ww"
  shows "relative_position_index_of (Wh, Ww) [cf0, cf1] ! i ! j
      = (cf0 ! i - cf0 ! j + (int Wh - 1)) * (2 * int Ww - 1)
        + (cf1 ! i - cf1 ! j + (int Ww - 1))"
proof -
  have two: "[0..<2] = [0, Suc 0]" by (simp add: upt_rec)
  show ?thesis using assms by (simp add: relative_position_index_of_def Let_def two)
qed

lemma coords_flatten_eq:
  "coords_flatten hs ws = [concat (map (\<lambda>h. map (\<lambda>w. h) ws) hs), concat (map (\<lambda>h. map (\<lambda>w. w) ws) hs)]"
  by (simp add: coords_flatten_def meshgrid_def)

lemma rpi_nth:
  assumes "i < Wh * Ww" "j < Wh * Ww"
  shows "relative_position_index_of (Wh, Ww) (coords_flatten (map int [0..<Wh]) (map int [0..<Ww])) ! i ! j
     = (int (i div Ww) - int (j div Ww) + (int Wh - 1)) * (2 * int Ww - 1)
       + (int (i mod Ww) - int (j mod Ww) + (int Ww - 1))"
proof -
  have pos: "0 < Ww" using assms(1) by (cases Ww) auto
  let ?hs = "map int [0..<Wh]" and ?ws = "map int [0..<Ww]"
  define cf0 where "cf0 = concat (map (\<lambda>h. map (\<lambda>w. h) ?ws) ?hs)"
  define cf1 where "cf1 = concat (map (\<lambda>h. map (\<lambda>w. w) ?ws) ?hs)"
  have c0: "cf0 ! k = int (k div Ww)" if k: "k < Wh * Ww" for k
  proof -
    have "k div Ww < Wh" using k pos by (simp add: less_mult_imp_div_less)
    then show ?thesis
      unfolding cf0_def using concat_grid_nth [of k ?hs ?ws "\<lambda>h w. h"] k by simp
  qed
  have c1: "cf1 ! k = int (k mod Ww)" if k: "k < Wh * Ww" for k
    unfolding cf1_def using concat_grid_nth [of k ?hs ?ws "\<lambda>h w. w"] k pos by simp
  have l0: "length cf0 = Wh * Ww"
    unfolding cf0_def using concat_grid_length [of "\<lambda>h w. h" ?ws ?hs] by simp
  have l1: "length cf1 = Wh * Ww"
    unfolding cf1_def using concat_grid_length [of "\<lambda>h w. w" ?ws ?hs] by simp
  have "coords_flatten ?hs ?ws = [cf0, cf1]"
    unfolding cf0_def cf1_def by (rule coords_flatten_eq)
  then show ?thesis
    using rpi_from_flat [OF l0 l1 assms] assms by (simp add: c0 c1)
qed

lemma rpi_bounds:
  assumes "i < Wh * Ww" "j < Wh * Ww"
  shows "0 \<le> relative_position_index_of (Wh, Ww) (coords_flatten (map int [0..<Wh]) (map int [0..<Ww])) ! i ! j"
    and "relative_position_index_of (Wh, Ww) (coords_flatten (map int [0..<Wh]) (map int [0..<Ww])) ! i ! j
           < (2 * int Wh - 1) * (2 * int Ww - 1)"
proof -
  have pos: "0 < Ww" using assms(1) by (cases Ww) auto
  have di: "i div Ww < Wh" using assms(1) pos by (simp add: less_mult_imp_div_less)
  have dj: "j div Ww < Wh" using assms(2) pos by (simp add: less_mult_imp_div_less)
  have mi: "int (i mod Ww) < int Ww" and mj: "int (j mod Ww) < int Ww" using pos by simp_all
  have di': "int (i div Ww) < int Wh" and dj': "int (j div Ww) < int Wh" using di dj by simp_all
  define a where "a = int (i div Ww) - int (j div Ww) + (int Wh - 1)"
  define b where "b = int (i mod Ww) - int (j mod Ww) + (int Ww - 1)"
  define m where "m = 2 * int Ww - 1"
  have a0: "0 \<le> a" and a1: "a \<le> 2 * int Wh - 2" using di' dj' unfolding a_def by linarith+
  have b0: "0 \<le> b" and b1: "b \<le> m - 1" using mi mj unfolding b_def m_def by linarith+
  have m0: "0 \<le> m" using pos by (simp add: m_def)
  have eq: "relative_position_index_of (Wh, Ww) (coords_flatten (map int [0..<Wh]) (map int [0..<Ww])) ! i ! j = a * m + b"
    using rpi_nth [OF assms] by (simp add: a_def b_def m_def)
  show "0 \<le> relative_position_index_of (Wh, Ww) (coords_flatten (map int [0..<Wh]) (map int [0..<Ww])) ! i ! j"
    using a0 b0 m0 by (simp add: eq)
  have "a * m \<le> (2 * int Wh - 2) * m" using a1 m0 by (rule mult_right_mono)
  then have "a * m + b \<le> (2 * int Wh - 2) * m + (m - 1)" using b1 by simp
  also have "\<dots> = (2 * int Wh - 1) * m - 1" by (simp add: algebra_simps)
  finally show "relative_position_index_of (Wh, Ww) (coords_flatten (map int [0..<Wh]) (map int [0..<Ww])) ! i ! j
           < (2 * int Wh - 1) * (2 * int Ww - 1)"
    by (simp add: eq m_def)
qed

subsection \<open>WindowAttention keeps the shape of its input\<close>

lemma then_e_Inr [simp]: "then_e (Inr x) k = k x"
  by (simp add: then_e_def)

lemma then_e_Inl [simp]: "then_e (Inl e) k = Inl e"
  by (simp add: then_e_def)

lemma bdim_simps [simp]:
  "bdim x x = Some x" "bdim x 1 = Some x" "bdim 1 y = Some y"
  "bdim x (Suc 0) = Some x" "bdim (Suc 0) y = Some y"
  by (simp_all add: bdim_def)

lemma reshape_hole:
  assumes "length (filter (\<lambda>d. d = None) tgt) = 1"
    and "prod_list (map known_dim tgt) = k" and "k \<noteq> 0" and "prod_list s = k * m"
  shows "reshape s tgt = Inr (map (\<lambda>d. case d of None \<Rightarrow> m | Some n \<Rightarrow> n) tgt)"
  using assms by (simp add: reshape_def Let_def)

lemma reshape_exact:
  assumes "prod_list s = prod_list t"
  shows "reshape s (map Some t) = Inr t"
proof -
  have "filter (\<lambda>d. d = None) (map Some t) = []" by (induction t) auto
  moreover have "map known_dim (map Some t) = t" by (induction t) (auto simp: known_dim_def)
  ultimately show ?thesis using assms by (simp add: reshape_def Let_def)
qed

lemma linear_ok [simp]: "linear i out (pre @ [i]) = Inr (pre @ [out])"
  by (simp add: linear_def)

lemma WindowAttention_init_ok:
  assumes "0 < Wh" "0 < Ww"
  shows "WindowAttention_init d (Wh, Ww) nh qb pws =
    Inr \<lparr> wa_dim = d, window_size = (Wh, Ww), pretrained_window_size = pws, wa_num_heads = nh,
          relative_coords_table = [1, 2 * Wh - 1, 2 * Ww - 1, 2],
          relative_position_index =
            relative_position_index_of (Wh, Ww) (coords_flatten (map int [0..<Wh]) (map int [0..<Ww])),
          has_qkv_bias = qb \<rparr>"
proof -
  have h: "nat (2 * int Wh - 1) = 2 * Wh - Suc 0" by linarith
  have w: "nat (2 * int Ww - 1) = 2 * Ww - Suc 0" by linarith
  show ?thesis
    using assms by (simp add: WindowAttention_init_def arange_def upto_as_map h w)
qed

lemma WindowAttention_init_fail:
  assumes "Wh = 0 \<or> Ww = 0"
  shows "WindowAttention_init d (Wh, Ww) nh qb pws = Inl RuntimeError"
  using assms by (auto simp: WindowAttention_init_def arange_def then_e_def split: sum.splits)


lemma rpi_concat_in_range:
  assumes "0 < Wh" "0 < Ww"
  shows "list_all (\<lambda>e. 0 \<le> e \<and> e < (2 * int Wh - 1) * (2 * int Ww - 1))
     (concat (relative_position_index_of (Wh, Ww) (coords_flatten (map int [0..<Wh]) (map int [0..<Ww]))))"
proof -
  let ?ix = "relative_position_index_of (Wh, Ww) (coords_flatten (map int [0..<Wh]) (map int [0..<Ww]))"
  have "0 \<le> e \<and> e < (2 * int Wh - 1) * (2 * int Ww - 1)" if "e \<in> set (concat ?ix)" for e
  proof -
    from that obtain row where row: "row \<in> set ?ix" and e: "e \<in> set row" by auto
    from row obtain i where i: "i < Wh * Ww" and ri: "row = ?ix ! i"
      by (metis in_set_conv_nth rpi_length)
    from e ri obtain j where j: "j < Wh * Ww" and ej: "e = ?ix ! i ! j"
      using rpi_row_length [OF i] by (metis in_set_conv_nth)
    show ?thesis using rpi_bounds [OF i j] ej by simp
  qed
  then show ?thesis by (simp add: list_all_iff)
qed

lemma rpi_concat_length:
  "length (concat (relative_position_index_of (Wh, Ww) flat)) = (Wh * Ww) * (Wh * Ww)"
proof -
  let ?ix = "relative_position_index_of (Wh, Ww) flat"
  have "map length ?ix = replicate (Wh * Ww) (Wh * Ww)"
    by (rule nth_equalityI) (simp_all add: rpi_length rpi_row_length)
  then show ?thesis by (simp add: length_concat sum_list_replicate)
qed

lemma WindowAttention_forward_ok:
  assumes wa: "WindowAttention_init d (Wh, Ww) nh qb pws = Inr self"
    and "0 < Wh" "0 < Ww" "0 < B" "0 < nh" "nh dvd d" "N = Wh * Ww"
  shows "WindowAttention_forward self [B, N, d] None = Inr [B, N, d]"
proof -
  obtain hd where hd: "d = nh * hd" using assms(6) by (auto simp: dvd_def)
  have N: "0 < N" using assms by simp
  have self: "wa_dim self = d" "wa_num_heads self = nh" "window_size self = (Wh, Ww)"
    "relative_coords_table self = [1, 2 * Wh - 1, 2 * Ww - 1, 2]"
    "relative_position_index self =
       relative_position_index_of (Wh, Ww) (coords_flatten (map int [0..<Wh]) (map int [0..<Ww]))"
    using wa WindowAttention_init_ok [OF assms(2,3), of d nh qb pws] by auto
  have r1: "reshape [B, N, d * 3] [Some B, Some N, Some 3, Some nh, None] = Inr [B, N, 3, nh, hd]"
    using reshape_hole [of "[Some B, Some N, Some 3, Some nh, None]" "B * N * 3 * nh" "[B, N, d * 3]" hd]
      assms(4,5) N by (simp add: known_dim_def hd)
  have p1: "permute [B, N, 3, nh, hd] [2, 0, 3, 1, 4] = Inr [3, B, nh, N, hd]"
    by (simp add: permute_def)
  have t1: "transpose_t [B, nh, N, hd] (- 2) (- 1) = Inr [B, nh, hd, N]"
    by (simp add: transpose_t_def norm_dim_def)
  have m1: "matmul [B, nh, N, hd] [B, nh, hd, N] = Inr [B, nh, N, N]"
    by (simp add: matmul_def broadcast_def)
  have b1: "broadcast [B, nh, N, N] [nh, 1, 1] = Inr [B, nh, N, N]"
    by (simp add: broadcast_def)
  define R where "R = (2 * Wh - 1) * (2 * Ww - 1)"
  have tb: "relative_position_bias_table self = Inr [R, nh]"
    using reshape_hole [of "[None, Some nh]" nh "[1, 2 * Wh - 1, 2 * Ww - 1, nh]" R] assms(5)
      linear_ok [of 2 512 "[1, 2 * Wh - 1, 2 * Ww - 1]"] linear_ok [of 512 nh "[1, 2 * Wh - 1, 2 * Ww - 1]"]
    by (simp add: relative_position_bias_table_def cpb_mlp_def self known_dim_def R_def)
  have Rint: "int R = (2 * int Wh - 1) * (2 * int Ww - 1)"
    using assms(2,3) by (simp add: R_def of_nat_diff)
  have ix: "index_rows [R, nh] (concat (relative_position_index self)) = Inr [N * N, nh]"
  proof -
    have "list_all (\<lambda>e. 0 \<le> e \<and> e < int R) (concat (relative_position_index self))"
      using rpi_concat_in_range [OF assms(2,3)] unfolding self Rint .
    then have "list_all (\<lambda>i. - int R \<le> i \<and> i < int R) (concat (relative_position_index self))"
      unfolding list_all_iff by force
    then show ?thesis by (simp add: index_rows_def self rpi_concat_length assms(7))
  qed
  have r2: "reshape [N * N, nh] [Some N, Some N, None] = Inr [N, N, nh]"
    using reshape_hole [of "[Some N, Some N, None]" "N * N" "[N * N, nh]" nh] N
    by (simp add: known_dim_def)
  have p2: "permute [N, N, nh] [2, 0, 1] = Inr [nh, N, N]"
    by (simp add: permute_def)
  have b2: "broadcast [B, nh, N, N] [1, nh, N, N] = Inr [B, nh, N, N]"
    by (simp add: broadcast_def)
  have m2: "matmul [B, nh, N, N] [B, nh, N, hd] = Inr [B, nh, N, hd]"
    by (simp add: matmul_def broadcast_def)
  have t2: "transpose_t [B, nh, N, hd] 1 2 = Inr [B, N, nh, hd]"
    by (simp add: transpose_t_def norm_dim_def)
  have r3: "reshape [B, N, nh, hd] [Some B, Some N, Some d] = Inr [B, N, d]"
    using reshape_exact [of "[B, N, nh, hd]" "[B, N, d]"] by (simp add: hd)
  have l1: "linear d (d * 3) [B, N, d] = Inr [B, N, d * 3]"
    using linear_ok [of d "d * 3" "[B, N]"] by simp
  have l2: "linear d d [B, N, d] = Inr [B, N, d]"
    using linear_ok [of d d "[B, N]"] by simp
  have i0: "index_t [3, B, nh, N, hd] [At 0] = Inr [B, nh, N, hd]"
    and i1: "index_t [3, B, nh, N, hd] [At 1] = Inr [B, nh, N, hd]"
    and i2: "index_t [3, B, nh, N, hd] [At 2] = Inr [B, nh, N, hd]"
    by simp_all
  have NN: "Wh * Ww = N" using assms(7) by simp
  show ?thesis
    unfolding WindowAttention_forward_def
    by (simp only: list.case option.case self(1-4) fst_conv snd_conv NN then_e_Inr
          l1 r1 p1 i0 i1 i2 t1 m1 b1 tb ix r2 p2 b2 m2 t2 r3 l2)
qed

subsection \<open>The forward pass on shapes\<close>

lemma bnd_lift_Inr [simp]: "bnd (lift (Inr x)) k g = k x g"
  by (simp add: bnd_def lift_def)

lemma bnd_lift_Inl [simp]: "bnd (lift (Inl e)) k g = Inl e"
  by (simp add: bnd_def lift_def)

lemma lift_Inl [simp]: "lift (Inl e) g = Inl e"
  by (simp add: lift_def)

lemma ret_apply [simp]: "ret x g = Inr (x, g)"
  by (simp add: ret_def)

lemma HUTformer_init_fields:
  assumes "HUTformer_init nodes hist pred patch md ck = Inr m"
  shows "md = ''encoder'' \<or> md = ''decoder''" "0 < patch"
    "mode m = md" "len_patch m = patch" "len_pred m = pred" "len_hist m = hist"
    "num_patch m = hist div patch" "embed_dim m = 64" "NUM_NODES m = nodes"
    "SE m = [nodes, 16]" "embedding m = (patch, 64)"
    "STPE m = (hist div patch * 64 + 16 + 2, hist div patch * 64)"
    "encoder_project m = (hist div patch * 64, pred)"
    "WindowAttention_init 64 (2, hist div patch div 2) 8 True (0, 0) = Inr (encoder_1 m)"
    "fst (encoder_2 m) = SegmentMerging_init 64"
    "WindowAttention_init 128 (2, hist div patch div 4) 8 True (0, 0) = Inr (snd (encoder_2 m))"
    "fst (encoder_3 m) = SegmentMerging_init 128"
    "WindowAttention_init 256 (2, hist div patch div 8) 8 True (0, 0) = Inr (snd (encoder_3 m))"
  using assms
  by (auto simp: HUTformer_init_def Let_def then_e_def split: if_splits sum.splits option.splits)


lemma shape_torch_simps [simp]:
  "t_shape (shape_torch m) = (\<lambda>s. s)" "t_index (shape_torch m) = index_t"
  "t_permute (shape_torch m) = permute" "t_rearrange (shape_torch m) = rearrange"
  "t_reshape (shape_torch m) = reshape" "t_cat (shape_torch m) = cat_last"
  "t_repeat (shape_torch m) = repeat_t" "t_unsqueeze (shape_torch m) = unsqueeze_last"
  "t_SE (shape_torch m) = SE m" "t_call (shape_torch m) = (\<lambda>md args. lift (shape_call m md args))"
  by (simp_all add: shape_torch_def)

lemma SegmentMerging_forward_ok:
  "SegmentMerging_forward (SegmentMerging_init c) [b, 2 * p, c] = Inr [b, p, 2 * c]"
  by (simp add: SegmentMerging_forward_def SegmentMerging_init_def layer_norm_def)

lemma encoder_path:
  assumes init: "HUTformer_init nodes hist pred patch md ck = Inr m"
    and np: "hist div patch = 8 * k" "0 < k" and B: "0 < B" and N: "0 < nodes"
  shows "shape_call m M_encoder_1 [[B * nodes, 8 * k, 64]] = Inr [B * nodes, 8 * k, 64]"
    and "shape_call m M_encoder_2 [[B * nodes, 8 * k, 64]] = Inr [B * nodes, 4 * k, 128]"
    and "shape_call m M_encoder_3 [[B * nodes, 4 * k, 128]] = Inr [B * nodes, 2 * k, 256]"
proof -
  note f = HUTformer_init_fields [OF init]
  have BN: "0 < B * nodes" using B N by simp
  have d2: "8 * k div 2 = 4 * k" and d4: "8 * k div 4 = 2 * k" and d8: "8 * k div 8 = k" by simp_all
  have e1: "WindowAttention_init 64 (2, 4 * k) 8 True (0, 0) = Inr (encoder_1 m)"
    using f(14) by (simp add: np d2)
  have e2: "WindowAttention_init 128 (2, 2 * k) 8 True (0, 0) = Inr (snd (encoder_2 m))"
    using f(16) by (simp add: np d4)
  have e3: "WindowAttention_init 256 (2, k) 8 True (0, 0) = Inr (snd (encoder_3 m))"
    using f(18) by (simp add: np d8)
  show "shape_call m M_encoder_1 [[B * nodes, 8 * k, 64]] = Inr [B * nodes, 8 * k, 64]"
    using WindowAttention_forward_ok [OF e1, of "B * nodes" "8 * k"] np(2) BN by simp
  have w2: "WindowAttention_forward (snd (encoder_2 m)) [B * nodes, 4 * k, 128] None = Inr [B * nodes, 4 * k, 128]"
    using WindowAttention_forward_ok [OF e2, of "B * nodes" "4 * k"] np(2) BN by simp
  have s2: "SegmentMerging_forward (fst (encoder_2 m)) [B * nodes, 8 * k, 64] = Inr [B * nodes, 4 * k, 128]"
    using SegmentMerging_forward_ok [of 64 "B * nodes" "4 * k"] by (simp add: f(15))
  show "shape_call m M_encoder_2 [[B * nodes, 8 * k, 64]] = Inr [B * nodes, 4 * k, 128]"
    by (simp add: apply_merge_attend_def s2 w2)
  have w3: "WindowAttention_forward (snd (encoder_3 m)) [B * nodes, 2 * k, 256] None = Inr [B * nodes, 2 * k, 256]"
    using WindowAttention_forward_ok [OF e3, of "B * nodes" "2 * k"] np(2) BN by simp
  have s3: "SegmentMerging_forward (fst (encoder_3 m)) [B * nodes, 4 * k, 128] = Inr [B * nodes, 2 * k, 256]"
    using SegmentMerging_forward_ok [of 128 "B * nodes" "2 * k"] by (simp add: f(17))
  show "shape_call m M_encoder_3 [[B * nodes, 4 * k, 128]] = Inr [B * nodes, 2 * k, 256]"
    by (simp add: apply_merge_attend_def s3 w3)
qed


lemma encoder_prediction_steps:
  assumes init: "HUTformer_init nodes hist pred patch md ck = Inr m"
    and np: "hist div patch = 8 * k" "0 < k" and B: "0 < B" and N: "0 < nodes"
  shows "shape_call m M_embedding [[B, nodes, 8 * k, patch]] = Inr [B, nodes, 8 * k, 64]"
    and "reshape [B, nodes, 8 * k, 64] [Some B, Some nodes, None] = Inr [B, nodes, 8 * k * 64]"
    and "repeat_t (SE m) [B, 1, 1] = Inr [B, nodes, 16]"
    and "cat_last [[B, nodes, 8 * k * 64], [B, nodes, 16], [B, nodes, 2]] = Inr [B, nodes, 8 * k * 64 + 16 + 2]"
    and "shape_call m M_STPE [[B, nodes, 8 * k * 64 + 16 + 2]] = Inr [B, nodes, 8 * k * 64]"
    and "reshape [B, nodes, 8 * k * 64] [Some (B * nodes), None, Some 64] = Inr [B * nodes, 8 * k, 64]"
    and "rearrange [B * nodes, 2 * k, 256] (Join_batch B nodes) = Inr [B, nodes, 8 * k * 64]"
    and "shape_call m M_encoder_project [[B, nodes, 8 * k * 64]] = Inr [B, nodes, pred]"
proof -
  note f = HUTformer_init_fields [OF init]
  show "shape_call m M_embedding [[B, nodes, 8 * k, patch]] = Inr [B, nodes, 8 * k, 64]"
    using linear_ok [of patch 64 "[B, nodes, 8 * k]"] by (simp add: apply_linear_def f(11))
  show "reshape [B, nodes, 8 * k, 64] [Some B, Some nodes, None] = Inr [B, nodes, 8 * k * 64]"
    using reshape_hole [of "[Some B, Some nodes, None]" "B * nodes" "[B, nodes, 8 * k, 64]" "8 * k * 64"] B N
    by (simp add: known_dim_def)
  show "repeat_t (SE m) [B, 1, 1] = Inr [B, nodes, 16]"
    by (simp add: repeat_t_def f(10))
  show "cat_last [[B, nodes, 8 * k * 64], [B, nodes, 16], [B, nodes, 2]] = Inr [B, nodes, 8 * k * 64 + 16 + 2]"
    by (simp add: cat_last_def)
  show "shape_call m M_STPE [[B, nodes, 8 * k * 64 + 16 + 2]] = Inr [B, nodes, 8 * k * 64]"
    using linear_ok [of "8 * k * 64 + 16 + 2" "8 * k * 64" "[B, nodes]"]
    by (simp add: apply_linear_def f(12) np)
  show "reshape [B, nodes, 8 * k * 64] [Some (B * nodes), None, Some 64] = Inr [B * nodes, 8 * k, 64]"
    using reshape_hole [of "[Some (B * nodes), None, Some 64]" "B * nodes * 64" "[B, nodes, 8 * k * 64]" "8 * k"] B N
    by (simp add: known_dim_def)
  show "rearrange [B * nodes, 2 * k, 256] (Join_batch B nodes) = Inr [B, nodes, 8 * k * 64]"
    by simp
  show "shape_call m M_encoder_project [[B, nodes, 8 * k * 64]] = Inr [B, nodes, pred]"
    using linear_ok [of "8 * k * 64" pred "[B, nodes]"] by (simp add: apply_linear_def f(13) np)
qed

lemma forward_encoder_shape:
  assumes init: "HUTformer_init nodes hist pred patch ''encoder'' ck = Inr m"
    and np: "hist = 8 * k * patch" "0 < k" and B: "0 < B" and N: "0 < nodes"
  shows "forward (shape_torch m) m [B, hist, nodes, 3] future batch_seen epoch train kwargs ()
           = Inr ([B, pred, nodes, 1], ())"
proof -
  note f = HUTformer_init_fields [OF init]
  have patch: "0 < patch" by (rule f(2))
  have hist: "0 < hist" using np patch by simp
  have npd: "hist div patch = 8 * k" using np patch by simp
  note st = encoder_prediction_steps [OF init npd np(2) B N]
  note en = encoder_path [OF init npd np(2) B N]
  have s1: "index_t [B, hist, nodes, 3] [All, All, All, At 0] = Inr [B, hist, nodes]"
    by simp
  have s2: "permute [B, hist, nodes] [0, 2, 1] = Inr [B, nodes, hist]"
    by (simp add: permute_def)
  have s3: "rearrange [B, nodes, hist] (Split_last patch) = Inr [B, nodes, 8 * k, patch]"
    using patch by (simp add: np)
  have s7: "index_t [B, hist, nodes, 3] [All, At (- 1), All, From 1] = Inr [B, nodes, 2]"
    using hist by simp
  have s13: "permute [B, nodes, pred] [0, 2, 1] = Inr [B, pred, nodes]"
    by (simp add: permute_def)
  have md: "mode m = ''encoder''" by (rule f(3))
  show ?thesis
    unfolding forward_def
    by (simp only: shape_torch_simps list.case bnd_lift_Inr ret_apply f(4) f(8) md if_True
          s1 s2 s3 s7 s13 st en unsqueeze_last_def append.simps HOL.simp_thms)
qed


lemma HUTformer_init_decoder_fields:
  assumes "HUTformer_init nodes hist pred patch ''decoder'' ck = Inr m"
  shows "\<exists>dec. decoder m = Some dec
      \<and> WindowAttention_init 64 (2, hist div patch div 2) 8 True (0, 0) = Inr (decoder_1 dec)
      \<and> decoder_project_0 dec = (128, 64)
      \<and> AttentionLayer_init 64 8 None None True = Inr (fst (decoder_2 dec))
      \<and> WindowAttention_init 64 (2, hist div patch div 2) 8 True (0, 0) = Inr (snd (decoder_2 dec))
      \<and> AttentionLayer_init 64 8 None None True = Inr (fst (decoder_3 dec))
      \<and> WindowAttention_init 64 (2, hist div patch div 2) 8 True (0, 0) = Inr (snd (decoder_3 dec))
      \<and> decoder_project dec = (64, patch)"
  using assms
  by (auto simp: HUTformer_init_def Let_def then_e_def split: if_splits sum.splits option.splits)

lemma FullAttention_forward_ok:
  "FullAttention_forward [B, L, H, E] [B, S, H, E] [B, S, H, E] = Inr [B, L, H, E]"
  by (simp add: FullAttention_forward_def einsum_blhe_bshe_def einsum_bhls_bshd_def broadcast_def)

lemma AttentionLayer_forward_ok:
  assumes al: "AttentionLayer_init 64 8 None None True = Inr self" and "0 < B" "0 < L" "0 < S"
  shows "AttentionLayer_forward self ([B, L, 64], [B, S, 64], [B, S, 64]) = Inr [B, L, 64]"
proof -
  have self: "al_d_model self = 64" "al_n_heads self = 8" "al_d_keys self = 8" "al_d_values self = 8"
    "al_mix self = True"
    using al by (auto simp: AttentionLayer_init_def or_default_def)
  have n: "layer_norm 64 [B, L, 64] = Inr [B, L, 64]" "layer_norm 64 [B, S, 64] = Inr [B, S, 64]"
    by (simp_all add: layer_norm_def)
  have l: "linear 64 (8 * 8) [B, L, 64] = Inr [B, L, 64]" "linear 64 (8 * 8) [B, S, 64] = Inr [B, S, 64]"
    "linear (8 * 8) 64 [B, L, 64] = Inr [B, L, 64]"
    by (simp_all add: linear_def)
  have r: "reshape [B, L, 64] [Some B, Some L, Some 8, None] = Inr [B, L, 8, 8]"
    "reshape [B, S, 64] [Some B, Some S, Some 8, None] = Inr [B, S, 8, 8]"
    using reshape_hole [of "[Some B, Some L, Some 8, None]" "B * L * 8" "[B, L, 64]" 8]
      reshape_hole [of "[Some B, Some S, Some 8, None]" "B * S * 8" "[B, S, 64]" 8] assms(2-4)
    by (simp_all add: known_dim_def)
  have fa: "FullAttention_forward [B, L, 8, 8] [B, S, 8, 8] [B, S, 8, 8] = Inr [B, L, 8, 8]"
    by (rule FullAttention_forward_ok)
  have t: "transpose_t [B, L, 8, 8] 2 1 = Inr [B, 8, L, 8]"
    by (simp add: transpose_t_def norm_dim_def)
  have r2: "reshape [B, 8, L, 8] [Some B, Some L, None] = Inr [B, L, 64]"
    using reshape_hole [of "[Some B, Some L, None]" "B * L" "[B, 8, L, 8]" 64] assms(2,3)
    by (simp add: known_dim_def)
  have b: "broadcast [B, L, 64] [B, L, 64] = Inr [B, L, 64]"
    by (simp add: broadcast_def)
  show ?thesis
    unfolding AttentionLayer_forward_def
    by (simp only: prod.case list.case self then_e_Inr n l r fa t r2 b if_True)
qed

lemma decoder_path:
  assumes init: "HUTformer_init nodes hist pred patch ''decoder'' ck = Inr m"
    and np: "hist div patch = 8 * k" "0 < k" and B: "0 < B" and N: "0 < nodes"
  shows "shape_call m M_decoder_1 [[B * nodes, 8 * k, 64]] = Inr [B * nodes, 8 * k, 64]"
    and "shape_call m M_decoder_project_0 [[B * nodes, 4 * k, 128]] = Inr [B * nodes, 4 * k, 64]"
    and "shape_call m M_decoder_2 [[B * nodes, 8 * k, 64], [B * nodes, 8 * k, 64], [B * nodes, 8 * k, 64]]
           = Inr [B * nodes, 8 * k, 64]"
    and "shape_call m M_decoder_3 [[B * nodes, 8 * k, 64], [B * nodes, 8 * k, 64], [B * nodes, 8 * k, 64]]
           = Inr [B * nodes, 8 * k, 64]"
    and "shape_call m M_decoder_project [[B * nodes, 8 * k, 64]] = Inr [B * nodes, 8 * k, patch]"
proof -
  from HUTformer_init_decoder_fields [OF init] obtain dec where dec: "decoder m = Some dec"
    and d1: "WindowAttention_init 64 (2, hist div patch div 2) 8 True (0, 0) = Inr (decoder_1 dec)"
    and p0: "decoder_project_0 dec = (128, 64)"
    and a2: "AttentionLayer_init 64 8 None None True = Inr (fst (decoder_2 dec))"
    and w2: "WindowAttention_init 64 (2, hist div patch div 2) 8 True (0, 0) = Inr (snd (decoder_2 dec))"
    and a3: "AttentionLayer_init 64 8 None None True = Inr (fst (decoder_3 dec))"
    and w3: "WindowAttention_init 64 (2, hist div patch div 2) 8 True (0, 0) = Inr (snd (decoder_3 dec))"
    and pj: "decoder_project dec = (64, patch)"
    by blast
  have BN: "0 < B * nodes" using B N by simp
  have d2: "8 * k div 2 = 4 * k" by simp
  have wa: "WindowAttention_forward w [B * nodes, 8 * k, 64] None = Inr [B * nodes, 8 * k, 64]"
    if "WindowAttention_init 64 (2, hist div patch div 2) 8 True (0, 0) = Inr w" for w
    using WindowAttention_forward_ok [of 64 2 "4 * k" 8 True "(0, 0)" w "B * nodes" "8 * k"] that np BN
    by (simp add: d2)
  have al: "AttentionLayer_forward a ([B * nodes, 8 * k, 64], [B * nodes, 8 * k, 64], [B * nodes, 8 * k, 64])
      = Inr [B * nodes, 8 * k, 64]"
    if "AttentionLayer_init 64 8 None None True = Inr a" for a
    using AttentionLayer_forward_ok [OF that, of "B * nodes" "8 * k" "8 * k"] BN np(2) by simp
  show "shape_call m M_decoder_1 [[B * nodes, 8 * k, 64]] = Inr [B * nodes, 8 * k, 64]"
    by (simp add: with_decoder_def dec wa [OF d1])
  show "shape_call m M_decoder_project_0 [[B * nodes, 4 * k, 128]] = Inr [B * nodes, 4 * k, 64]"
    using linear_ok [of 128 64 "[B * nodes, 4 * k]"] by (simp add: with_decoder_def dec apply_linear_def p0)
  show "shape_call m M_decoder_2 [[B * nodes, 8 * k, 64], [B * nodes, 8 * k, 64], [B * nodes, 8 * k, 64]]
           = Inr [B * nodes, 8 * k, 64]"
    by (simp add: with_decoder_def dec apply_cross_attend_def al [OF a2] wa [OF w2])
  show "shape_call m M_decoder_3 [[B * nodes, 8 * k, 64], [B * nodes, 8 * k, 64], [B * nodes, 8 * k, 64]]
           = Inr [B * nodes, 8 * k, 64]"
    by (simp add: with_decoder_def dec apply_cross_attend_def al [OF a3] wa [OF w3])
  show "shape_call m M_decoder_project [[B * nodes, 8 * k, 64]] = Inr [B * nodes, 8 * k, patch]"
    using linear_ok [of 64 patch "[B * nodes, 8 * k]"] by (simp add: with_decoder_def dec apply_linear_def pj)
qed

lemma forward_decoder_shape:
  assumes init: "HUTformer_init nodes hist pred patch ''decoder'' ck = Inr m"
    and np: "hist = 8 * k * patch" "0 < k" and B: "0 < B" and N: "0 < nodes"
    and pred: "pred = hist" and L2: "0 < L2"
  shows "forward (shape_torch m) m [B, hist, nodes, 3] [B, L2, nodes, 3] batch_seen epoch train kwargs ()
           = Inr ([B, pred, nodes, 1], ())"
proof -
  note f = HUTformer_init_fields [OF init]
  have patch: "0 < patch" by (rule f(2))
  have hist: "0 < hist" using np patch by simp
  have npd: "hist div patch = 8 * k" using np patch by simp
  note st = encoder_prediction_steps [OF init npd np(2) B N]
  note en = encoder_path [OF init npd np(2) B N]
  note de = decoder_path [OF init npd np(2) B N]
  have s1: "index_t [B, hist, nodes, 3] [All, All, All, At 0] = Inr [B, hist, nodes]"
    by simp
  have s2: "permute [B, hist, nodes] [0, 2, 1] = Inr [B, nodes, hist]"
    by (simp add: permute_def)
  have s3: "rearrange [B, nodes, hist] (Split_last patch) = Inr [B, nodes, 8 * k, patch]"
    "rearrange [B, nodes, pred] (Split_last patch) = Inr [B, nodes, 8 * k, patch]"
    using patch by (simp_all add: np pred)
  have s7: "index_t [B, hist, nodes, 3] [All, At (- 1), All, From 1] = Inr [B, nodes, 2]"
    "index_t [B, L2, nodes, 3] [All, At (- 1), All, From 1] = Inr [B, nodes, 2]"
    using hist L2 by simp_all
  have rp: "repeat_t [B * nodes, 4 * k, 64] [1, 2, 1] = Inr [B * nodes, 8 * k, 64]"
    by (simp add: repeat_t_def)
  have r9: "reshape [B * nodes, 8 * k, patch] [Some B, Some nodes, None] = Inr [B, nodes, pred]"
    using reshape_hole [of "[Some B, Some nodes, None]" "B * nodes" "[B * nodes, 8 * k, patch]" pred] B N
    by (simp add: known_dim_def pred np)
  have s13: "permute [B, nodes, pred] [0, 2, 1] = Inr [B, pred, nodes]"
    by (simp add: permute_def)
  have md: "mode m = ''decoder''" by (rule f(3))
  have ne: "(''decoder'' = ''encoder'') = False" by simp
  show ?thesis
    unfolding forward_def
    by (simp only: shape_torch_simps list.case bnd_lift_Inr ret_apply f(4) f(8) md ne if_False
          s1 s2 s3 s7 s13 st en de rp r9 unsqueeze_last_def append.simps HOL.simp_thms)
qed

lemma AttentionLayer_init_default:
  "AttentionLayer_init 64 8 None None True =
     Inr \<lparr> al_d_model = 64, al_n_heads = 8, al_d_keys = 8, al_d_values = 8, al_mix = True \<rparr>"
  by (simp add: AttentionLayer_init_def or_default_def)

lemma HUTformer_init_ok:
  assumes md: "md = ''encoder'' \<or> md = ''decoder''" and patch: "0 < patch"
    and np: "8 \<le> hist div patch" and ck: "md = ''decoder'' \<longrightarrow> ck \<noteq> Some Unreadable"
  shows "\<exists>m. HUTformer_init nodes hist pred patch md ck = Inr m"
proof -
  have p2: "0 < hist div patch div 2" and p4: "0 < hist div patch div 4" and p8: "0 < hist div patch div 8"
    using np by (simp_all add: div_greater_zero_iff)
  note w1 = WindowAttention_init_ok [of 2 "hist div patch div 2" 64 8 True "(0, 0)", OF _ p2, simplified]
  note w2 = WindowAttention_init_ok [of 2 "hist div patch div 4" 128 8 True "(0, 0)", OF _ p4, simplified]
  note w3 = WindowAttention_init_ok [of 2 "hist div patch div 8" 256 8 True "(0, 0)", OF _ p8, simplified]
  have ld: "(case ck of None \<Rightarrow> Inr () | Some c \<Rightarrow> load_state_dict c) = Inr ()" if "md = ''decoder''"
    using ck that by (cases ck) (auto simp: load_state_dict_def split: checkpoint.splits)
  from md show ?thesis
  proof
    assume "md = ''encoder''"
    then show ?thesis
      using patch by (simp add: HUTformer_init_def Let_def w1 w2 w3)
  next
    assume d: "md = ''decoder''"
    then show ?thesis
      using patch by (simp add: HUTformer_init_def Let_def w1 w2 w3 ld AttentionLayer_init_default)
  qed
qed

lemma HUTformer_init_needs:
  assumes "HUTformer_init nodes hist pred patch md ck = Inr m"
  shows "md = ''encoder'' \<or> md = ''decoder''" and "0 < patch" and "8 \<le> hist div patch"
    and "md = ''decoder'' \<longrightarrow> ck \<noteq> Some Unreadable"
proof -
  note f = HUTformer_init_fields [OF assms]
  show "md = ''encoder'' \<or> md = ''decoder''" by (rule f(1))
  show "0 < patch" by (rule f(2))
  have "hist div patch div 8 \<noteq> 0"
  proof
    assume z: "hist div patch div 8 = 0"
    have "WindowAttention_init 256 (2, hist div patch div 8) 8 True (0, 0) = Inl RuntimeError"
      by (rule WindowAttention_init_fail) (simp add: z)
    with f(18) show False by simp
  qed
  then show "8 \<le> hist div patch" by (simp add: div_greater_zero_iff)
  show "md = ''decoder'' \<longrightarrow> ck \<noteq> Some Unreadable"
    using assms
    by (auto simp: HUTformer_init_def Let_def then_e_def load_state_dict_def split: if_splits sum.splits)
qed

lemma forward_wrong_channels:
  assumes init: "HUTformer_init nodes hist pred patch md ck = Inr m"
    and np: "hist = 8 * k * patch" "0 < k" and B: "0 < B" and N: "0 < nodes" and C: "C \<noteq> 3"
  shows "\<exists>e. forward (shape_torch m) m [B, hist, nodes, C] future batch_seen epoch train kwargs () = Inl e"
proof (cases "C = 0")
  case True
  have s1: "index_t [B, hist, nodes, C] [All, All, All, At 0] = Inl IndexError"
    using True by simp
  show ?thesis
    unfolding forward_def
    by (simp only: shape_torch_simps list.case bnd_lift_Inl s1) blast
next
  case False
  note f = HUTformer_init_fields [OF init]
  have patch: "0 < patch" by (rule f(2))
  have hist: "0 < hist" using np patch by simp
  have npd: "hist div patch = 8 * k" using np patch by simp
  note st = encoder_prediction_steps [OF init npd np(2) B N]
  have s1: "index_t [B, hist, nodes, C] [All, All, All, At 0] = Inr [B, hist, nodes]"
    using False by simp
  have s2: "permute [B, hist, nodes] [0, 2, 1] = Inr [B, nodes, hist]"
    by (simp add: permute_def)
  have s3: "rearrange [B, nodes, hist] (Split_last patch) = Inr [B, nodes, 8 * k, patch]"
    using patch by (simp add: np)
  have s7: "index_t [B, hist, nodes, C] [All, At (- 1), All, From 1] = Inr [B, nodes, C - 1]"
    using hist by simp
  have s8: "cat_last [[B, nodes, 8 * k * 64], [B, nodes, 16], [B, nodes, C - 1]]
      = Inr [B, nodes, 8 * k * 64 + 16 + (C - 1)]"
    by (simp add: cat_last_def)
  have s9: "shape_call m M_STPE [[B, nodes, 8 * k * 64 + 16 + (C - 1)]] = Inl RuntimeError"
    using C False by (simp add: apply_linear_def f(12) npd linear_def)
  show ?thesis
    unfolding forward_def
    by (simp only: shape_torch_simps list.case bnd_lift_Inr bnd_lift_Inl f(4) f(8)
          s1 s2 s3 s7 s8 s9 st(1-3)) blast
qed

subsection \<open>The shape of the prediction\<close>

text \<open>
  C1 (as amended). For a model that construction returned, whose history length is
  \<open>8 * k\<close> patches (num_patch a positive multiple of 8) and, in mode \<open>'decoder'\<close>, whose
  prediction length equals its history length, the forward call on a history tensor of
  shape (B, len_hist, nodes, 3) and a future tensor of shape (B, len_pred, nodes, 3), with
  \<open>B > 0\<close> and \<open>nodes > 0\<close>, returns a tensor of shape (B, len_pred, nodes, 1). In mode
  \<open>'encoder'\<close> the prediction length is free.
\<close>

theorem forward_output_shape:
  assumes "HUTformer_init nodes hist pred patch md ck = Inr m"
    and "hist = 8 * k * patch" and "0 < k" and "0 < B" and "0 < nodes"
    and "md = ''decoder'' \<longrightarrow> pred = hist"
  shows "forward_shape m [B, hist, nodes, 3] [B, pred, nodes, 3] = Inr [B, pred, nodes, 1]"
proof -
  note n = HUTformer_init_needs [OF assms(1)]
  from n(1) show ?thesis
  proof
    assume e: "md = ''encoder''"
    show ?thesis
      using forward_encoder_shape [OF assms(1) [unfolded e] assms(2-5), where future = "[B, pred, nodes, 3]"
          and batch_seen = 0 and epoch = 0 and train = False and kwargs = "()"]
      by (simp add: forward_shape_def)
  next
    assume d: "md = ''decoder''"
    then have p: "pred = hist" using assms(6) by simp
    have "0 < hist" using assms(2,3) n(2) by simp
    then have "0 < pred" using p by simp
    then show ?thesis
      using forward_decoder_shape [OF assms(1) [unfolded d] assms(2-5) p, where
          batch_seen = 0 and epoch = 0 and train = False and kwargs = "()"]
      by (simp add: forward_shape_def)
  qed
qed

theorem forward_output_shape_witness:
  "construct_and_run 2 96 24 12 ''encoder'' None [1, 96, 2, 3] [1, 24, 2, 3] = Inr [1, 24, 2, 1]
   \<and> construct_and_run 2 96 96 12 ''decoder'' None [1, 96, 2, 3] [1, 96, 2, 3] = Inr [1, 96, 2, 1]"
proof -
  obtain m where m: "HUTformer_init 2 96 24 12 ''encoder'' None = Inr m"
    using HUTformer_init_ok [of "''encoder''" 12 96 None 2 24] by auto
  obtain m' where m': "HUTformer_init 2 96 96 12 ''decoder'' None = Inr m'"
    using HUTformer_init_ok [of "''decoder''" 12 96 None 2 96] by auto
  have "forward_shape m [1, 96, 2, 3] [1, 24, 2, 3] = Inr [1, 24, 2, 1]"
    using forward_output_shape [OF m, of 1 1] by simp
  moreover have "forward_shape m' [1, 96, 2, 3] [1, 96, 2, 3] = Inr [1, 96, 2, 1]"
    using forward_output_shape [OF m', of 1 1] by simp
  ultimately show ?thesis by (simp add: construct_and_run_def m m')
qed

theorem forward_output_shape_counterexample:
  "constructs 2 96 48 12 ''decoder'' None
   \<and> construct_and_run 2 96 48 12 ''decoder'' None [1, 96, 2, 3] [1, 48, 2, 3] = Inl RuntimeError
   \<and> construct_and_run 2 96 84 12 ''decoder'' None [1, 96, 2, 3] [1, 84, 2, 67] = Inr [1, 96, 2, 1]
   \<and> constructs 2 144 144 12 ''encoder'' None
   \<and> construct_and_run 2 144 144 12 ''encoder'' None [1, 144, 2, 3] [1, 144, 2, 3] = Inl RuntimeError
   \<and> construct_and_run 2 96 96 12 ''encoder'' None [1, 96, 2, 4] [1, 96, 2, 4] = Inl RuntimeError"
proof -
  have a: "constructs 2 96 48 12 ''decoder'' None" by code_simp
  have b: "construct_and_run 2 96 48 12 ''decoder'' None [1, 96, 2, 3] [1, 48, 2, 3] = Inl RuntimeError"
    by code_simp
  have c: "construct_and_run 2 96 84 12 ''decoder'' None [1, 96, 2, 3] [1, 84, 2, 67] = Inr [1, 96, 2, 1]"
    by code_simp
  have d: "constructs 2 144 144 12 ''encoder'' None" by code_simp
  have e: "construct_and_run 2 144 144 12 ''encoder'' None [1, 144, 2, 3] [1, 144, 2, 3] = Inl RuntimeError"
    by code_simp
  have f: "construct_and_run 2 96 96 12 ''encoder'' None [1, 96, 2, 4] [1, 96, 2, 4] = Inl RuntimeError"
    by code_simp
  from a b c d e f show ?thesis by blast
qed

text \<open>
  C2 (as amended). Under the same conditions on the model, a forward call on history and
  future tensors with \<open>C\<close> channels returns a tensor exactly when \<open>C = 3\<close>: the layer
  \<open>STPE\<close> is built for two auxiliary covariates, so any other channel count raises.
\<close>

theorem forward_channels_exactly_three:
  assumes "HUTformer_init nodes hist pred patch md ck = Inr m"
    and "hist = 8 * k * patch" and "0 < k" and "0 < B" and "0 < nodes"
    and "md = ''decoder'' \<longrightarrow> pred = hist"
  shows "(\<exists>s. forward_shape m [B, hist, nodes, C] [B, pred, nodes, C] = Inr s) \<longleftrightarrow> C = 3"
proof
  assume ex: "\<exists>s. forward_shape m [B, hist, nodes, C] [B, pred, nodes, C] = Inr s"
  show "C = 3"
  proof (rule ccontr)
    assume "C \<noteq> 3"
    from forward_wrong_channels [OF assms(1-5) this, where future = "[B, pred, nodes, C]"
        and batch_seen = 0 and epoch = 0 and train = False and kwargs = "()"]
    obtain e where "forward (shape_torch m) m [B, hist, nodes, C] [B, pred, nodes, C] 0 0 False () () = Inl e"
      by blast
    then have "forward_shape m [B, hist, nodes, C] [B, pred, nodes, C] = Inl e"
      by (simp add: forward_shape_def)
    with ex show False by simp
  qed
next
  assume C: "C = 3"
  note n = HUTformer_init_needs [OF assms(1)]
  from n(1) show "\<exists>s. forward_shape m [B, hist, nodes, C] [B, pred, nodes, C] = Inr s"
  proof
    assume e: "md = ''encoder''"
    show ?thesis
      using forward_encoder_shape [OF assms(1) [unfolded e] assms(2-5), where future = "[B, pred, nodes, 3]"
          and batch_seen = 0 and epoch = 0 and train = False and kwargs = "()"]
      by (simp add: forward_shape_def C)
  next
    assume d: "md = ''decoder''"
    then have p: "pred = hist" using assms(6) by simp
    have "0 < hist" using assms(2,3) n(2) by simp
    then have "0 < pred" using p by simp
    then show ?thesis
      using forward_decoder_shape [OF assms(1) [unfolded d] assms(2-5) p, where
          batch_seen = 0 and epoch = 0 and train = False and kwargs = "()"]
      by (simp add: forward_shape_def C)
  qed
qed

theorem forward_channels_exactly_three_witness:
  "(\<exists>s. construct_and_run 2 96 24 12 ''encoder'' None [1, 96, 2, 3] [1, 24, 2, 3] = Inr s)
   \<and> (\<nexists>s. construct_and_run 2 96 24 12 ''encoder'' None [1, 96, 2, 7] [1, 24, 2, 7] = Inr s)"
proof -
  obtain m where m: "HUTformer_init 2 96 24 12 ''encoder'' None = Inr m"
    using HUTformer_init_ok [of "''encoder''" 12 96 None 2 24] by auto
  have "(\<exists>s. forward_shape m [1, 96, 2, 3] [1, 24, 2, 3] = Inr s)"
    using forward_channels_exactly_three [OF m, of 1 1 3] by simp
  moreover have "\<not> (\<exists>s. forward_shape m [1, 96, 2, 7] [1, 24, 2, 7] = Inr s)"
    using forward_channels_exactly_three [OF m, of 1 1 7] by simp
  ultimately show ?thesis by (simp add: construct_and_run_def m)
qed

theorem forward_channels_counterexample:
  "constructs 2 96 96 12 ''encoder'' None
   \<and> construct_and_run 2 96 96 12 ''encoder'' None [1, 96, 2, 2] [1, 96, 2, 2] = Inl RuntimeError
   \<and> construct_and_run 2 96 96 12 ''encoder'' None [1, 96, 2, 5] [1, 96, 2, 5] = Inl RuntimeError"
proof -
  have a: "constructs 2 96 96 12 ''encoder'' None" by code_simp
  have b: "construct_and_run 2 96 96 12 ''encoder'' None [1, 96, 2, 2] [1, 96, 2, 2] = Inl RuntimeError"
    by code_simp
  have c: "construct_and_run 2 96 96 12 ''encoder'' None [1, 96, 2, 5] [1, 96, 2, 5] = Inl RuntimeError"
    by code_simp
  from a b c show ?thesis by blast
qed

subsection \<open>Window tables and frozen parameters\<close>

lemma bias_table_shape:
  assumes wa: "WindowAttention_init d (Wh, Ww) nh qb pws = Inr self"
    and "0 < Wh" "0 < Ww" "0 < nh"
  shows "relative_position_bias_table self = Inr [(2 * Wh - 1) * (2 * Ww - 1), nh]"
proof -
  have self: "wa_num_heads self = nh" "relative_coords_table self = [1, 2 * Wh - 1, 2 * Ww - 1, 2]"
    using wa WindowAttention_init_ok [OF assms(2,3), of d nh qb pws] by auto
  show ?thesis
    using reshape_hole [of "[None, Some nh]" nh "[1, 2 * Wh - 1, 2 * Ww - 1, nh]" "(2 * Wh - 1) * (2 * Ww - 1)"]
      assms(4) linear_ok [of 2 512 "[1, 2 * Wh - 1, 2 * Ww - 1]"]
      linear_ok [of 512 nh "[1, 2 * Wh - 1, 2 * Ww - 1]"]
    by (simp add: relative_position_bias_table_def cpb_mlp_def self known_dim_def)
qed

text \<open>
  C6. A WindowAttention constructed with \<open>window_size = (2, 12)\<close> and at least one head:
  the bias table (the relative-coordinate table through \<open>cpb_mlp\<close>, flattened) has shape
  (69, num_heads), and \<open>relative_position_index\<close> has 24 rows of 24 entries, each an
  integer from 0 to 68.
\<close>

theorem window_2_12_tables:
  assumes "0 < nh"
  shows "\<exists>self. WindowAttention_init d (2, 12) nh qb pws = Inr self
      \<and> relative_position_bias_table self = Inr [69, nh]
      \<and> length (relative_position_index self) = 24
      \<and> (\<forall>row \<in> set (relative_position_index self).
            length row = 24 \<and> (\<forall>e \<in> set row. 0 \<le> e \<and> e \<le> 68))"
proof -
  let ?flat = "coords_flatten (map int [0..<2]) (map int [0..<12])"
  let ?ix = "relative_position_index_of (2, 12) ?flat"
  obtain self where self: "WindowAttention_init d (2, 12) nh qb pws = Inr self"
    and ix: "relative_position_index self = ?ix"
    using WindowAttention_init_ok [of 2 12 d nh qb pws] by simp
  have tb: "relative_position_bias_table self = Inr [69, nh]"
    using bias_table_shape [OF self _ _ assms] by simp
  have len: "length ?ix = 24" using rpi_length [of 2 12 ?flat] by simp
  have rows: "length row = 24 \<and> (\<forall>e \<in> set row. 0 \<le> e \<and> e \<le> 68)" if "row \<in> set ?ix" for row
  proof -
    from that obtain i where i: "i < 2 * 12" and r: "row = ?ix ! i"
      using len by (metis in_set_conv_nth mult_2 numeral_Bit0 rpi_length)
    have l: "length row = 24" using rpi_row_length [OF i, of ?flat] r by simp
    have "0 \<le> e \<and> e \<le> 68" if "e \<in> set row" for e
    proof -
      from that l obtain j where j: "j < 2 * 12" and e: "e = row ! j"
        by (metis in_set_conv_nth mult_2 numeral_Bit0 numeral_times_numeral)
      show ?thesis using rpi_bounds [OF i j] e r by simp
    qed
    with l show ?thesis by blast
  qed
  show ?thesis using self tb len rows ix by auto
qed

theorem window_2_12_tables_witness:
  "\<exists>self. WindowAttention_init 64 (2, 12) 8 True (0, 0) = Inr self
      \<and> relative_position_bias_table self = Inr [69, 8]
      \<and> length (relative_position_index self) = 24
      \<and> list_all (\<lambda>row. length row = 24 \<and> list_all (\<lambda>e. 0 \<le> e \<and> e \<le> 68) row)
           (relative_position_index self)"
  using window_2_12_tables [of 8 64 True "(0, 0)"] by (simp add: list_all_iff)

lemma freeze_loop_fresh:
  assumes "(name, rg) \<in> set (freeze_loop (fresh_parameters names))"
  shows "rg = contains ''decoder'' name"
  using assms by (auto simp: freeze_loop_def fresh_parameters_def)

lemma decoder_named_parameters:
  assumes "HUTformer_init nodes hist pred patch ''decoder'' ck = Inr m"
  shows "\<exists>names. named_parameters m = freeze_loop (fresh_parameters names)
     \<and> ''SE'' \<in> set names \<and> ''decoder_project.weight'' \<in> set names"
proof -
  from HUTformer_init_decoder_fields [OF assms] obtain dec where dec: "decoder m = Some dec" by blast
  have "named_parameters m = freeze_loop (fresh_parameters
      (encoder_parameter_names (encoder_1 m) (snd (encoder_2 m)) (snd (encoder_3 m))
        @ decoder_parameter_names dec))"
    using assms dec
    by (auto simp: HUTformer_init_def Let_def then_e_def fresh_parameters_def
          split: if_splits sum.splits option.splits)
  moreover have "''SE'' \<in> set (encoder_parameter_names (encoder_1 m) (snd (encoder_2 m)) (snd (encoder_3 m)))"
    by (simp add: encoder_parameter_names_def)
  moreover have "''decoder_project.weight'' \<in> set (decoder_parameter_names dec)"
    by (simp add: decoder_parameter_names_def prefixed_def Linear_parameters_def)
  ultimately show ?thesis by (metis Un_iff set_append)
qed

text \<open>
  C7. After construction in mode \<open>'decoder'\<close>, whatever the other arguments, a parameter
  has \<open>requires_grad\<close> exactly when its name contains \<open>decoder\<close>: every other parameter
  is frozen. Both kinds exist: \<open>SE\<close> is frozen and \<open>decoder_project.weight\<close> is not.
\<close>

theorem decoder_mode_freezes_encoder:
  assumes "HUTformer_init nodes hist pred patch ''decoder'' ck = Inr m"
  shows "(\<forall>(name, rg) \<in> set (named_parameters m). rg = contains ''decoder'' name)
     \<and> (''SE'', False) \<in> set (named_parameters m)
     \<and> (''decoder_project.weight'', True) \<in> set (named_parameters m)"
proof -
  from decoder_named_parameters [OF assms] obtain names
    where np: "named_parameters m = freeze_loop (fresh_parameters names)"
      and se: "''SE'' \<in> set names" and dp: "''decoder_project.weight'' \<in> set names"
    by blast
  have a: "\<forall>(name, rg) \<in> set (named_parameters m). rg = contains ''decoder'' name"
    using freeze_loop_fresh unfolding np by blast
  have c1: "contains ''decoder'' ''SE'' = False" by simp
  have c2: "contains ''decoder'' ''decoder_project.weight'' = True" by simp
  have b: "(''SE'', False) \<in> set (named_parameters m)"
    unfolding np freeze_loop_def fresh_parameters_def using se c1 by force
  have c: "(''decoder_project.weight'', True) \<in> set (named_parameters m)"
    unfolding np freeze_loop_def fresh_parameters_def using dp c2 by force
  from a b c show ?thesis by blast
qed

theorem decoder_mode_freezes_encoder_witness:
  "\<exists>m. HUTformer_init 2 96 96 12 ''decoder'' None = Inr m
     \<and> list_all (\<lambda>(name, rg). rg = contains ''decoder'' name) (named_parameters m)
     \<and> (''SE'', False) \<in> set (named_parameters m)
     \<and> (''decoder_project.weight'', True) \<in> set (named_parameters m)"
proof -
  obtain m where m: "HUTformer_init 2 96 96 12 ''decoder'' None = Inr m"
    using HUTformer_init_ok [of "''decoder''" 12 96 None 2 96] by auto
  show ?thesis
    using decoder_mode_freezes_encoder [OF m] m by (auto simp: list_all_iff)
qed


subsection \<open>What the forward pass does not read\<close>

text \<open>
  C9. With the interpretation of the tensor operations fixed (the parameters, the
  modules' training flag) and the random state fixed, the result of the forward call is
  the same for any two values of \<open>batch_seen\<close>, of \<open>epoch\<close>, of the \<open>train\<close> argument and of
  the keyword arguments: none of the four is read. Dropout is gated by the modules' own
  training flag, which belongs to the interpretation, not by the \<open>train\<close> argument.
\<close>

theorem forward_ignores_counters:
  "forward T self history_data future_data batch_seen epoch train kwargs g
     = forward T self history_data future_data batch_seen' epoch' train' kwargs' g"
  by (simp add: forward_def)

text \<open>
  C10. In mode \<open>'encoder'\<close> the result of the forward call does not depend on the future
  tensor: with the same history tensor, interpretation and random state, any two future
  tensors give the same result (the same prediction, or the same error).
\<close>

theorem encoder_ignores_future:
  assumes "mode self = ''encoder''"
  shows "forward T self history_data future_data batch_seen epoch train kwargs g
     = forward T self history_data future_data' batch_seen epoch train kwargs g"
  using assms by (simp add: forward_def split: list.splits)

theorem encoder_ignores_future_witness:
  "construct_and_run 2 96 24 12 ''encoder'' None [1, 96, 2, 3] [1, 24, 2, 3]
     = construct_and_run 2 96 24 12 ''encoder'' None [1, 96, 2, 3] [7, 5]"
proof -
  obtain m where m: "HUTformer_init 2 96 24 12 ''encoder'' None = Inr m"
    using HUTformer_init_ok [of "''encoder''" 12 96 None 2 24] by auto
  have md: "mode m = ''encoder''" using HUTformer_init_fields(3) [OF m] .
  show ?thesis
    using encoder_ignores_future [OF md, of "shape_torch m" "[1, 96, 2, 3]" "[1, 24, 2, 3]" 0 0 False "()" "()" "[7, 5]"]
    by (simp add: construct_and_run_def m forward_shape_def)
qed

subsection \<open>SegmentMerging and FullAttention on elements\<close>

lemma map_div_mod_pair:
  "map (\<lambda>j. f (j div d) (j mod d)) [0..<2 * d] = map (f 0) [0..<d] @ map (f 1) [0..<d]"
proof -
  have split: "[0..<2 * d] = [0..<d] @ map (\<lambda>j. j + d) [0..<d]"
    using upt_add_eq_append [of 0 d d] by (simp add: map_add_upt mult_2)
  have a: "map (\<lambda>j. f (j div d) (j mod d)) [0..<d] = map (f 0) [0..<d]"
    by (rule map_cong) simp_all
  have b: "map (\<lambda>j. f ((j + d) div d) ((j + d) mod d)) [0..<d] = map (f 1) [0..<d]"
    by (rule map_cong) simp_all
  show ?thesis by (simp add: split a b comp_def)
qed

text \<open>
  C4. A SegmentMerging built for channel dimension \<open>d\<close>. On an input of shape
  (b, 2p, d) it returns a tensor of shape (b, p, 2d) whose token \<open>i\<close> (of batch entry
  \<open>bi\<close>) is the normalisation of the channels of input position \<open>2i\<close> followed by those
  of input position \<open>2i + 1\<close>. On an input whose sequence axis has odd length it raises.
\<close>

theorem SegmentMerging_merges_pairs:
  assumes "sm_dim self = d"
  shows "(dims x = [b, 2 * p, d] \<longrightarrow>
           (\<exists>y. SegmentMerging_forward_values nrm self x = Inr y \<and> dims y = [b, p, 2 * d]
              \<and> (\<forall>bi < b. \<forall>i < p. \<forall>j < 2 * d.
                    elem y [bi, i, j]
                      = nrm (map (\<lambda>c. elem x [bi, 2 * i, c]) [0..<d]
                             @ map (\<lambda>c. elem x [bi, 2 * i + 1, c]) [0..<d]) ! j)))
     \<and> (dims x = [b, s, c] \<and> odd s \<longrightarrow> SegmentMerging_forward_values nrm self x = Inl EinopsError)"
proof (intro conjI impI)
  assume dx: "dims x = [b, 2 * p, d]"
  define y0 where "y0 = \<lparr> dims = [b, p, 2 * d],
     elem = (\<lambda>ix. case ix of [b', p', j] \<Rightarrow> elem x [b', p' * 2 + j div d, j mod d] | _ \<Rightarrow> elem x ix) \<rparr>"
  define y where "y = \<lparr> dims = [b, p, 2 * d], elem = (\<lambda>ix. nrm (last_axis y0 ix) ! last ix) \<rparr>"
  have r: "rearrange_merge_pairs x = Inr y0"
    by (simp add: rearrange_merge_pairs_def dx y0_def cong: list.case_cong)
  have n: "layer_norm_values nrm (2 * sm_dim self) y0 = Inr y"
    by (simp add: layer_norm_values_def layer_norm_def y0_def y_def assms)
  have run: "SegmentMerging_forward_values nrm self x = Inr y"
    by (simp add: SegmentMerging_forward_values_def r n)
  have el: "elem y [bi, i, j]
      = nrm (map (\<lambda>c. elem x [bi, 2 * i, c]) [0..<d] @ map (\<lambda>c. elem x [bi, 2 * i + 1, c]) [0..<d]) ! j"
    for bi i j
  proof -
    have "last_axis y0 [bi, i, j] = map (\<lambda>j'. elem x [bi, i * 2 + j' div d, j' mod d]) [0..<2 * d]"
      by (simp add: last_axis_def y0_def)
    also have "\<dots> = map (\<lambda>c. elem x [bi, i * 2 + 0, c]) [0..<d] @ map (\<lambda>c. elem x [bi, i * 2 + 1, c]) [0..<d]"
      by (rule map_div_mod_pair [of "\<lambda>q c. elem x [bi, i * 2 + q, c]"])
    finally show ?thesis by (simp add: y_def mult.commute)
  qed
  show "\<exists>y. SegmentMerging_forward_values nrm self x = Inr y \<and> dims y = [b, p, 2 * d]
      \<and> (\<forall>bi < b. \<forall>i < p. \<forall>j < 2 * d.
            elem y [bi, i, j]
              = nrm (map (\<lambda>c. elem x [bi, 2 * i, c]) [0..<d]
                     @ map (\<lambda>c. elem x [bi, 2 * i + 1, c]) [0..<d]) ! j)"
    using run el by (intro exI [of _ y]) (simp add: y_def)
next
  assume "dims x = [b, s, c] \<and> odd s"
  then have dx: "dims x = [b, s, c]" and "s mod 2 \<noteq> 0" by (auto simp: odd_iff_mod_2_eq_one)
  then show "SegmentMerging_forward_values nrm self x = Inl EinopsError"
    by (simp add: SegmentMerging_forward_values_def rearrange_merge_pairs_def)
qed

theorem SegmentMerging_merges_pairs_witness:
  "(\<exists>y. SegmentMerging_forward_values rev (SegmentMerging_init 2)
            \<lparr> dims = [1, 4, 2], elem = (\<lambda>ix. 10 * (ix ! 1) + ix ! 2) \<rparr> = Inr y
        \<and> dims y = [1, 2, 4]
        \<and> map (\<lambda>j. elem y [0, 1, j]) [0, 1, 2, 3] = [31, 30, 21, 20])
   \<and> SegmentMerging_forward_values rev (SegmentMerging_init 2)
        \<lparr> dims = [1, 3, 2], elem = (\<lambda>ix. 10 * (ix ! 1) + ix ! 2) \<rparr> = Inl EinopsError"
proof -
  let ?x = "\<lparr> dims = [1, 4, 2], elem = (\<lambda>ix. 10 * (ix ! 1) + ix ! 2) \<rparr> :: nat tensor"
  let ?z = "\<lparr> dims = [1, 3, 2], elem = (\<lambda>ix. 10 * (ix ! 1) + ix ! 2) \<rparr> :: nat tensor"
  have sd: "sm_dim (SegmentMerging_init 2) = 2" by (simp add: SegmentMerging_init_def)
  have up: "[0..<2] = [0, Suc 0]" by (simp add: upt_rec)
  have dx: "dims ?x = [1, 2 * 2, 2]" by simp
  from SegmentMerging_merges_pairs [OF sd, where x = ?x and nrm = rev and b = 1 and p = 2,
      THEN conjunct1, rule_format, OF dx]
  obtain y where y: "SegmentMerging_forward_values rev (SegmentMerging_init 2) ?x = Inr y"
    and dy: "dims y = [1, 2, 2 * 2]"
    and el: "\<forall>bi < 1. \<forall>i < 2. \<forall>j < 2 * 2. elem y [bi, i, j]
        = rev (map (\<lambda>c. elem ?x [bi, 2 * i, c]) [0..<2] @ map (\<lambda>c. elem ?x [bi, 2 * i + 1, c]) [0..<2]) ! j"
    by blast
  have e: "map (\<lambda>j. elem y [0, 1, j]) [0, 1, 2, 3] = [31, 30, 21, 20]"
    using el by (simp add: up)
  have dz: "dims ?z = [1, 3, 2] \<and> odd (3 :: nat)" by simp
  have odd3: "SegmentMerging_forward_values rev (SegmentMerging_init 2) ?z = Inl EinopsError"
    using SegmentMerging_merges_pairs [OF sd, where x = ?z and nrm = rev and b = 1 and s = 3 and c = 2,
        THEN conjunct2, rule_format, OF dz] .
  have dy': "dims y = [1, 2, 4]" using dy by simp
  show ?thesis
    by (intro conjI exI [of _ y]) (rule y dy' e odd3)+
qed

lemma bix_in_range4:
  "b < B \<Longrightarrow> l < L \<Longrightarrow> h < H \<Longrightarrow> e < E \<Longrightarrow> bix [B, L, H, E] [b, l, h, e] = [b, l, h, e]"
  by (auto simp: bix_def)

lemma bsize_same [simp]: "bsize x x = x"
  by (simp add: bsize_def)

lemma sum_list_map_cong_upt:
  assumes "\<And>i. i < n \<Longrightarrow> f i = g i"
  shows "sum_list (map f [0..<n]) = sum_list (map g [0..<n])"
proof -
  have "map f [0..<n] = map g [0..<n]" using assms by simp
  then show ?thesis by (rule arg_cong)
qed

text \<open>
  C5. On queries of shape (B, L, H, E) and keys and values of shape (B, S, H, E), with
  \<open>E > 0\<close>, FullAttention returns a tensor of the queries' shape whose element at
  (b, l, h, d) is the attention-weighted sum over the key positions of the values, plus
  the element of the queries tensor as it was passed in. The scale is the one given, or
  \<open>1 / sqrt E\<close> when none is given.
\<close>

theorem FullAttention_residual_on_queries:
  assumes "dims q = [B, L, H, E]" and "dims k = [B, S, H, E]" and "dims v = [B, S, H, E]"
    and "0 < E"
  shows "scale_or_default None E = 1 / sqrt (real E)
     \<and> (\<exists>out. FullAttention_forward_values sc keep q k v = Inr out \<and> dims out = dims q
          \<and> (\<forall>b < B. \<forall>l < L. \<forall>h < H. \<forall>d < E.
                elem out [b, l, h, d]
                  = (\<Sum>s \<leftarrow> [0..<S].
                       attention_weight (scale_or_default sc E) keep q k S E b h l s * elem v [b, s, h, d])
                    + elem q [b, l, h, d]))"
proof (intro conjI)
  show "scale_or_default None E = 1 / sqrt (real E)" by (simp add: scale_or_default_def)
next
  define c where "c = scale_or_default sc E"
  define scores where "scores = \<lparr> dims = [B, H, L, S],
      elem = (\<lambda>ix. case ix of
                 [b, h, l, s] \<Rightarrow>
                   sum_list (map (\<lambda>e. elem q (bix [B, L, H, E] [b, l, h, e]) * elem k (bix [B, S, H, E] [b, s, h, e]))
                     [0..<E])
               | _ \<Rightarrow> 0) \<rparr>"
  define A where "A = dropout_values keep (softmax_last (scale_by c scores))"
  define V where "V = \<lparr> dims = [B, L, H, E],
      elem = (\<lambda>ix. case ix of
                 [b, l, h, d] \<Rightarrow>
                   sum_list (map (\<lambda>s. elem A (bix [B, H, L, S] [b, h, l, s]) * elem v (bix [B, S, H, E] [b, s, h, d]))
                     [0..<S])
               | _ \<Rightarrow> 0) \<rparr>"
  define out where "out = \<lparr> dims = [B, L, H, E],
      elem = (\<lambda>ix. elem V (bix (dims V) ix) + elem q (bix (dims q) ix)) \<rparr>"
  have dA: "dims A = [B, H, L, S]"
    by (simp add: A_def dropout_values_def softmax_last_def scale_by_def scores_def)
  have e1: "einsum_blhe_bshe_values q k = Inr scores"
    by (simp add: einsum_blhe_bshe_values_def einsum_blhe_bshe_def assms scores_def cong: list.case_cong)
  have e2: "einsum_bhls_bshd_values A v = Inr V"
    by (simp add: einsum_bhls_bshd_values_def einsum_bhls_bshd_def dA assms V_def cong: list.case_cong)
  have ad: "add_values V q = Inr out"
    by (simp add: add_values_def broadcast_def V_def assms out_def)
  have run: "FullAttention_forward_values sc keep q k v = Inr out"
    by (simp add: FullAttention_forward_values_def assms(1,3) Let_def e1 c_def [symmetric]
          A_def [symmetric] e2 ad)
  have sc: "elem scores [b, h, l, s] = attention_score q k E b h l s"
    if "b < B" "l < L" "h < H" "s < S" for b h l s
  proof -
    have "(\<Sum>e \<leftarrow> [0..<E]. elem q (bix [B, L, H, E] [b, l, h, e]) * elem k (bix [B, S, H, E] [b, s, h, e]))
        = (\<Sum>e \<leftarrow> [0..<E]. elem q [b, l, h, e] * elem k [b, s, h, e])"
      by (rule sum_list_map_cong_upt) (simp add: bix_in_range4 that)
    then show ?thesis by (simp add: scores_def attention_score_def)
  qed
  have aw: "elem A [b, h, l, s] = attention_weight c keep q k S E b h l s"
    if "b < B" "l < L" "h < H" "s < S" for b h l s
  proof -
    have la: "map exp (last_axis (scale_by c scores) [b, h, l, s])
        = map (\<lambda>s'. exp (c * attention_score q k E b h l s')) [0..<S]"
      unfolding last_axis_def
      by (rule nth_equalityI)
         (simp_all add: scale_by_def scores_def [THEN arg_cong, of dims] sc that(1-3))
    show ?thesis
      by (simp add: A_def dropout_values_def softmax_last_def la attention_weight_def)
         (simp add: scale_by_def sc that)
  qed
  have el: "elem out [b, l, h, d]
      = (\<Sum>s \<leftarrow> [0..<S]. attention_weight c keep q k S E b h l s * elem v [b, s, h, d])
        + elem q [b, l, h, d]"
    if "b < B" "l < L" "h < H" "d < E" for b l h d
  proof -
    have "(\<Sum>s \<leftarrow> [0..<S]. elem A (bix [B, H, L, S] [b, h, l, s]) * elem v (bix [B, S, H, E] [b, s, h, d]))
        = (\<Sum>s \<leftarrow> [0..<S]. attention_weight c keep q k S E b h l s * elem v [b, s, h, d])"
      by (rule sum_list_map_cong_upt) (simp add: bix_in_range4 that aw)
    then have "elem V [b, l, h, d]
        = (\<Sum>s \<leftarrow> [0..<S]. attention_weight c keep q k S E b h l s * elem v [b, s, h, d])"
      by (simp add: V_def)
    then show ?thesis
      using that by (simp add: out_def V_def [THEN arg_cong, of dims] assms bix_in_range4)
  qed
  show "\<exists>out. FullAttention_forward_values sc keep q k v = Inr out \<and> dims out = dims q
      \<and> (\<forall>b < B. \<forall>l < L. \<forall>h < H. \<forall>d < E.
            elem out [b, l, h, d]
              = (\<Sum>s \<leftarrow> [0..<S].
                   attention_weight (scale_or_default sc E) keep q k S E b h l s * elem v [b, s, h, d])
                + elem q [b, l, h, d])"
    using run el by (intro exI [of _ out]) (simp add: out_def assms c_def)
qed


theorem FullAttention_residual_on_queries_witness:
  "\<exists>out. FullAttention_forward_values None (\<lambda>ix. 1)
            \<lparr> dims = [1, 1, 1, 1], elem = (\<lambda>ix. 2) \<rparr>
            \<lparr> dims = [1, 2, 1, 1], elem = (\<lambda>ix. 3) \<rparr>
            \<lparr> dims = [1, 2, 1, 1], elem = (\<lambda>ix. 4 * real (ix ! 1)) \<rparr> = Inr out
      \<and> dims out = [1, 1, 1, 1] \<and> elem out [0, 0, 0, 0] = 4"
proof -
  let ?q = "\<lparr> dims = [1, 1, 1, 1], elem = (\<lambda>ix. 2) \<rparr> :: real tensor"
  let ?k = "\<lparr> dims = [1, 2, 1, 1], elem = (\<lambda>ix. 3) \<rparr> :: real tensor"
  let ?v = "\<lparr> dims = [1, 2, 1, 1], elem = (\<lambda>ix. 4 * real (ix ! 1)) \<rparr> :: real tensor"
  have dq: "dims ?q = [1, 1, 1, 1]" and dk: "dims ?k = [1, 2, 1, 1]" and dv: "dims ?v = [1, 2, 1, 1]"
    by simp_all
  from FullAttention_residual_on_queries [OF dq dk dv, of None "\<lambda>ix. 1", THEN conjunct2]
  obtain out where run: "FullAttention_forward_values None (\<lambda>ix. 1) ?q ?k ?v = Inr out"
    and d: "dims out = dims ?q"
    and el: "\<forall>b < 1. \<forall>l < 1. \<forall>h < 1. \<forall>d < 1.
        elem out [b, l, h, d]
          = (\<Sum>s \<leftarrow> [0..<2].
               attention_weight (scale_or_default None 1) (\<lambda>ix. 1) ?q ?k 2 1 b h l s * elem ?v [b, s, h, d])
            + elem ?q [b, l, h, d]"
    by auto
  have up: "[0..<2] = [0, Suc 0]" by (simp add: upt_rec)
  have half: "exp x / (exp x + exp x) = 1 / 2" for x :: real
    by (simp add: mult_2 [symmetric])
  have w: "attention_weight c (\<lambda>ix. 1) ?q ?k 2 1 0 0 0 s = 1 / 2" for c s
    by (simp add: attention_weight_def attention_score_def up half)
  note e0 = el [rule_format, OF zero_less_one zero_less_one zero_less_one zero_less_one]
  have "elem out [0, 0, 0, 0] = 4"
    unfolding e0 w by (simp add: up)
  with run d show ?thesis by simp
qed

subsection \<open>Construction and the divisibility conditions\<close>

lemma bnd_lift_InrE:
  assumes "bnd (lift r) k g = Inr z"
  obtains x where "r = Inr x" and "k x g = Inr z"
  using assms by (cases r) (auto simp: bnd_def lift_def)

lemma reshape_hole_Inr:
  assumes "reshape s tgt = Inr r" and "length (filter (\<lambda>d. d = None) tgt) = 1"
  shows "prod_list (map known_dim tgt) \<noteq> 0"
    and "r = map (\<lambda>d. case d of None \<Rightarrow> prod_list s div prod_list (map known_dim tgt) | Some n \<Rightarrow> n) tgt"
  using assms by (auto simp: reshape_def Let_def split: if_splits)

lemma linear_Inr: "linear i out s = Inr r \<Longrightarrow> s \<noteq> [] \<and> last s = i \<and> r = butlast s @ [out]"
  by (auto simp: linear_def split: if_splits)

lemma rearrange_join_Inr:
  assumes "rearrange s (Join_batch b n) = Inr r"
  shows "\<exists>p d. s = [b * n, p, d] \<and> r = [b, n, p * d]"
  using assms by (cases "(s, Join_batch b n)" rule: rearrange.cases) (auto split: if_splits)

lemma forward_steps:
  assumes init: "HUTformer_init nodes hist pred patch md ck = Inr m"
    and run: "forward (shape_torch m) m history future bs ep tr kw () = Inr z"
  shows "\<exists>B L N C x xa xb xc xd xe xf xg xh xi xj xk xl xm xn.
       history = [B, L, N, C]
     \<and> index_t [B, L, N, C] [All, All, All, At 0] = Inr x
     \<and> permute x [0, 2, 1] = Inr xa
     \<and> rearrange xa (Split_last patch) = Inr xb
     \<and> shape_call m M_embedding [xb] = Inr xc
     \<and> reshape xc [Some B, Some N, None] = Inr xd
     \<and> repeat_t (SE m) [B, 1, 1] = Inr xe
     \<and> index_t [B, L, N, C] [All, At (- 1), All, From 1] = Inr xf
     \<and> cat_last [xd, xe, xf] = Inr xg
     \<and> shape_call m M_STPE [xg] = Inr xh
     \<and> reshape xh [Some (B * N), None, Some 64] = Inr xi
     \<and> shape_call m M_encoder_1 [xi] = Inr xj
     \<and> shape_call m M_encoder_2 [xj] = Inr xk
     \<and> shape_call m M_encoder_3 [xk] = Inr xl
     \<and> rearrange xl (Join_batch B N) = Inr xm
     \<and> shape_call m M_encoder_project [xm] = Inr xn
     \<and> (md = ''decoder'' \<longrightarrow> (\<exists>P. rearrange xn (Split_last patch) = Inr P))"
proof -
  note f = HUTformer_init_fields [OF init]
  obtain B L N C where h: "history = [B, L, N, C]"
    using run by (cases history rule: list.exhaust) (auto simp: forward_def split: list.splits)
  have ne: "(''decoder'' = ''encoder'') = False" by simp
  show ?thesis
  proof (cases "md = ''decoder''")
    case True
    show ?thesis
      using run [unfolded forward_def h]
      apply (simp only: shape_torch_simps list.case f(3) f(4) f(8) True ne if_False)
      apply (erule bnd_lift_InrE)+
      using h True by blast
  next
    case False
    show ?thesis
      using run [unfolded forward_def h]
      apply (simp only: shape_torch_simps list.case f(4) f(8))
      apply (erule bnd_lift_InrE)+
      using h False by blast
  qed
qed


lemma forward_reaches_encoder:
  assumes init: "HUTformer_init nodes hist pred patch md ck = Inr m"
    and run: "forward (shape_torch m) m history future bs ep tr kw () = Inr z"
  shows "\<exists>B L N C H1 H2 H3. history = [B, L, N, C] \<and> 0 < B * N \<and> patch dvd L
     \<and> shape_call m M_encoder_1 [[B * N, hist div patch, 64]] = Inr H1
     \<and> shape_call m M_encoder_2 [H1] = Inr H2
     \<and> shape_call m M_encoder_3 [H2] = Inr H3
     \<and> (md = ''decoder'' \<longrightarrow> patch dvd pred)"
proof -
  note f = HUTformer_init_fields [OF init]
  from forward_steps [OF init run]
  obtain B L N C x xa xb xc xd xe xf xg xh xi xj xk xl xm xn where
        h: "history = [B, L, N, C]"
    and s1: "index_t [B, L, N, C] [All, All, All, At 0] = Inr x"
    and s2: "permute x [0, 2, 1] = Inr xa"
    and s3: "rearrange xa (Split_last patch) = Inr xb"
    and s4: "shape_call m M_embedding [xb] = Inr xc"
    and s5: "reshape xc [Some B, Some N, None] = Inr xd"
    and s6: "repeat_t (SE m) [B, 1, 1] = Inr xe"
    and s7: "index_t [B, L, N, C] [All, At (- 1), All, From 1] = Inr xf"
    and s8: "cat_last [xd, xe, xf] = Inr xg"
    and s9: "shape_call m M_STPE [xg] = Inr xh"
    and s10: "reshape xh [Some (B * N), None, Some 64] = Inr xi"
    and e1: "shape_call m M_encoder_1 [xi] = Inr xj"
    and e2: "shape_call m M_encoder_2 [xj] = Inr xk"
    and e3: "shape_call m M_encoder_3 [xk] = Inr xl"
    and s11: "rearrange xl (Join_batch B N) = Inr xm"
    and s12: "shape_call m M_encoder_project [xm] = Inr xn"
    and dec: "md = ''decoder'' \<longrightarrow> (\<exists>P. rearrange xn (Split_last patch) = Inr P)"
    by (elim exE conjE) (rule that, assumption+)
  have x: "x = [B, L, N]" using s1 by (auto split: if_splits)
  have xa: "xa = [B, N, L]" using s2 by (auto simp: permute_def x split: if_splits)
  have pL: "patch dvd L" using s3 by (auto simp: xa mod_eq_0_iff_dvd split: if_splits)
  have xd: "B * N \<noteq> 0" "\<exists>q. xd = [B, N, q]"
    using reshape_hole_Inr [OF s5] by (simp_all add: known_dim_def)
  then obtain q where xdq: "xd = [B, N, q]" by blast
  have xg: "\<exists>y. xg = [B, N, y]"
    using s8 by (auto simp: cat_last_def xdq split: if_splits)
  then obtain y where xgy: "xg = [B, N, y]" by blast
  have xh: "xh = [B, N, hist div patch * 64]"
    using s9 linear_Inr [of "hist div patch * 64 + 16 + 2" "hist div patch * 64" xg xh]
    by (simp add: apply_linear_def f(12) xgy)
  have pr: "prod_list xh = (B * N * 64) * (hist div patch)" by (simp add: xh)
  have xi: "xi = [B * N, hist div patch, 64]"
    using reshape_hole_Inr [OF s10] xd(1) unfolding pr by (simp add: known_dim_def)
  obtain p d where xm: "xm = [B, N, p * d]"
    using rearrange_join_Inr [OF s11] by blast
  have xn: "xn = [B, N, pred]"
    using s12 linear_Inr [of "hist div patch * 64" pred xm xn]
    by (simp add: apply_linear_def f(13) xm)
  have pp: "md = ''decoder'' \<longrightarrow> patch dvd pred"
    using dec by (auto simp: xn mod_eq_0_iff_dvd split: if_splits)
  show ?thesis
    using h xd(1) pL e1 [unfolded xi] e2 e3 pp by blast
qed


lemma WindowAttention_forward_mismatch:
  assumes wa: "WindowAttention_init d (Wh, Ww) nh qb pws = Inr self"
    and "0 < Wh" "0 < Ww" "0 < B" "0 < nh" "nh dvd d"
    and "N \<noteq> Wh * Ww" "N \<noteq> 1" "0 < N" "Wh * Ww \<noteq> 1"
  shows "WindowAttention_forward self [B, N, d] None = Inl RuntimeError"
proof -
  obtain hd where hd: "d = nh * hd" using assms(6) by (auto simp: dvd_def)
  define M where "M = Wh * Ww"
  have M: "0 < M" using assms(2,3) by (simp add: M_def)
  have self: "wa_dim self = d" "wa_num_heads self = nh" "window_size self = (Wh, Ww)"
    "relative_coords_table self = [1, 2 * Wh - 1, 2 * Ww - 1, 2]"
    "relative_position_index self =
       relative_position_index_of (Wh, Ww) (coords_flatten (map int [0..<Wh]) (map int [0..<Ww]))"
    using wa WindowAttention_init_ok [OF assms(2,3), of d nh qb pws] by auto
  have l1: "linear d (d * 3) [B, N, d] = Inr [B, N, d * 3]"
    using linear_ok [of d "d * 3" "[B, N]"] by simp
  have r1: "reshape [B, N, d * 3] [Some B, Some N, Some 3, Some nh, None] = Inr [B, N, 3, nh, hd]"
    using reshape_hole [of "[Some B, Some N, Some 3, Some nh, None]" "B * N * 3 * nh" "[B, N, d * 3]" hd]
      assms(4,5,9) by (simp add: known_dim_def hd)
  have p1: "permute [B, N, 3, nh, hd] [2, 0, 3, 1, 4] = Inr [3, B, nh, N, hd]"
    by (simp add: permute_def)
  have i0: "index_t [3, B, nh, N, hd] [At 0] = Inr [B, nh, N, hd]"
    and i1: "index_t [3, B, nh, N, hd] [At 1] = Inr [B, nh, N, hd]"
    and i2: "index_t [3, B, nh, N, hd] [At 2] = Inr [B, nh, N, hd]"
    by simp_all
  have t1: "transpose_t [B, nh, N, hd] (- 2) (- 1) = Inr [B, nh, hd, N]"
    by (simp add: transpose_t_def norm_dim_def)
  have m1: "matmul [B, nh, N, hd] [B, nh, hd, N] = Inr [B, nh, N, N]"
    by (simp add: matmul_def broadcast_def)
  have b1: "broadcast [B, nh, N, N] [nh, 1, 1] = Inr [B, nh, N, N]"
    by (simp add: broadcast_def)
  define R where "R = (2 * Wh - 1) * (2 * Ww - 1)"
  have tb: "relative_position_bias_table self = Inr [R, nh]"
    unfolding R_def by (rule bias_table_shape [OF wa assms(2,3,5)])
  have Rint: "int R = (2 * int Wh - 1) * (2 * int Ww - 1)"
    using assms(2,3) by (simp add: R_def of_nat_diff)
  have ix: "index_rows [R, nh] (concat (relative_position_index self)) = Inr [M * M, nh]"
  proof -
    have "list_all (\<lambda>e. 0 \<le> e \<and> e < int R) (concat (relative_position_index self))"
      using rpi_concat_in_range [OF assms(2,3)] unfolding self Rint .
    then have "list_all (\<lambda>i. - int R \<le> i \<and> i < int R) (concat (relative_position_index self))"
      unfolding list_all_iff by force
    then show ?thesis by (simp add: index_rows_def self rpi_concat_length M_def)
  qed
  have r2: "reshape [M * M, nh] [Some M, Some M, None] = Inr [M, M, nh]"
    using reshape_hole [of "[Some M, Some M, None]" "M * M" "[M * M, nh]" nh] M
    by (simp add: known_dim_def)
  have p2: "permute [M, M, nh] [2, 0, 1] = Inr [nh, M, M]"
    by (simp add: permute_def)
  have b2: "broadcast [B, nh, N, N] (1 # [nh, M, M]) = Inl RuntimeError"
    using assms(7,8,10) by (simp add: broadcast_def bdim_def M_def)
  have WW: "Wh * Ww = M" by (simp add: M_def)
  show ?thesis
    unfolding WindowAttention_forward_def
    by (simp only: list.case option.case self(1-4) fst_conv snd_conv WW then_e_Inr then_e_Inl
          l1 r1 p1 i0 i1 i2 t1 m1 b1 tb ix r2 p2 b2)
qed

lemma not_multiple_of_8_fails:
  assumes init: "HUTformer_init nodes hist pred patch md ck = Inr m"
    and n8: "\<not> 8 dvd hist div patch" and BN: "0 < BN"
    and e1: "shape_call m M_encoder_1 [[BN, hist div patch, 64]] = Inr H1"
    and e2: "shape_call m M_encoder_2 [H1] = Inr H2"
    and e3: "shape_call m M_encoder_3 [H2] = Inr H3"
  shows False
proof -
  note f = HUTformer_init_fields [OF init]
  define np where "np = hist div patch"
  have np8: "8 \<le> np" using HUTformer_init_needs(3) [OF init] by (simp add: np_def)
  have p2: "0 < np div 2" and p4: "0 < np div 4" and p8: "0 < np div 8"
    using np8 by (simp_all add: div_greater_zero_iff)
  note w1 = f(14) [folded np_def] and w2 = f(16) [folded np_def] and w3 = f(18) [folded np_def]
  note e1' = e1 [folded np_def]
  show False
  proof (cases "even np")
    case False
    then have ne: "np \<noteq> 2 * (np div 2)" by presburger
    have "WindowAttention_forward (encoder_1 m) [BN, np, 64] None = Inl RuntimeError"
      using WindowAttention_forward_mismatch [OF w1, of BN np] p2 BN ne np8 by simp
    with e1' show False by simp
  next
    case True
    then have eq: "np = 2 * (np div 2)" by presburger
    have "WindowAttention_forward (encoder_1 m) [BN, np, 64] None = Inr [BN, np, 64]"
      using WindowAttention_forward_ok [OF w1, of BN np] p2 BN eq by simp
    with e1' have H1: "H1 = [BN, np, 64]" by simp
    have s2: "SegmentMerging_forward (fst (encoder_2 m)) [BN, np, 64] = Inr [BN, np div 2, 128]"
      using SegmentMerging_forward_ok [of 64 BN "np div 2"] eq by (simp add: f(15))
    show False
    proof (cases "even (np div 2)")
      case False
      then have ne: "np div 2 \<noteq> 2 * (np div 4)" by presburger
      have "WindowAttention_forward (snd (encoder_2 m)) [BN, np div 2, 128] None = Inl RuntimeError"
        using WindowAttention_forward_mismatch [OF w2, of BN "np div 2"] p2 p4 BN ne np8 by simp
      with e2 show False by (simp add: H1 apply_merge_attend_def s2)
    next
      case True
      then have eq2: "np div 2 = 2 * (np div 4)" by presburger
      have "WindowAttention_forward (snd (encoder_2 m)) [BN, np div 2, 128] None = Inr [BN, np div 2, 128]"
        using WindowAttention_forward_ok [OF w2, of BN "np div 2"] p4 BN eq2 by simp
      with e2 have H2: "H2 = [BN, np div 2, 128]" by (simp add: H1 apply_merge_attend_def s2)
      have s3: "SegmentMerging_forward (fst (encoder_3 m)) [BN, np div 2, 128] = Inr [BN, np div 4, 256]"
        using SegmentMerging_forward_ok [of 128 BN "np div 4"] eq2 by (simp add: f(17))
      have odd4: "odd (np div 4)" using n8 eq eq2 unfolding np_def [symmetric] by presburger
      then have ne: "np div 4 \<noteq> 2 * (np div 8)" by presburger
      have n1: "np div 4 \<noteq> 1" using np8 by presburger
      have "WindowAttention_forward (snd (encoder_3 m)) [BN, np div 4, 256] None = Inl RuntimeError"
        using WindowAttention_forward_mismatch [OF w3, of BN "np div 4"] p4 p8 BN ne n1 by simp
      with e3 show False by (simp add: H2 apply_merge_attend_def s3)
    qed
  qed
qed


lemma forward_shape_Inr:
  assumes "forward_shape m history future = Inr s"
  shows "\<exists>z. forward (shape_torch m) m history future 0 0 False () () = Inr z"
  using assms by (auto simp: forward_shape_def split: sum.splits)

text \<open>
  C3 (as amended). Construction checks no divisibility. It returns a model exactly when
  the mode is \<open>'encoder'\<close> or \<open>'decoder'\<close>, the patch length is not zero, \<open>int(len_hist /
  len_patch)\<close> is at least 8 (so that the three window widths are positive) and, in mode
  \<open>'decoder'\<close>, the checkpoint, if one is given, loads. A configuration that violates the
  divisibility conditions is rejected by the forward call instead: a forward call returns
  only if num_patch is divisible by 8, the length of the history tensor is an exact
  multiple of the patch length and, in mode \<open>'decoder'\<close>, so is the prediction length.
\<close>

theorem construction_checks_no_divisibility:
  "((\<exists>m. HUTformer_init nodes hist pred patch md ck = Inr m)
      \<longleftrightarrow> (md = ''encoder'' \<or> md = ''decoder'') \<and> 0 < patch \<and> 8 \<le> hist div patch
          \<and> (md = ''decoder'' \<longrightarrow> ck \<noteq> Some Unreadable))
   \<and> (\<forall>m history future s.
         HUTformer_init nodes hist pred patch md ck = Inr m
         \<and> forward_shape m history future = Inr s
         \<longrightarrow> 8 dvd hist div patch
             \<and> (\<exists>B L N C. history = [B, L, N, C] \<and> patch dvd L)
             \<and> (md = ''decoder'' \<longrightarrow> patch dvd pred))"
proof -
  have iff: "(\<exists>m. HUTformer_init nodes hist pred patch md ck = Inr m)
      \<longleftrightarrow> (md = ''encoder'' \<or> md = ''decoder'') \<and> 0 < patch \<and> 8 \<le> hist div patch
          \<and> (md = ''decoder'' \<longrightarrow> ck \<noteq> Some Unreadable)"
  proof
    assume "\<exists>m. HUTformer_init nodes hist pred patch md ck = Inr m"
    then obtain m where m: "HUTformer_init nodes hist pred patch md ck = Inr m" by blast
    show "(md = ''encoder'' \<or> md = ''decoder'') \<and> 0 < patch \<and> 8 \<le> hist div patch
            \<and> (md = ''decoder'' \<longrightarrow> ck \<noteq> Some Unreadable)"
      using HUTformer_init_needs [OF m] by blast
  next
    assume "(md = ''encoder'' \<or> md = ''decoder'') \<and> 0 < patch \<and> 8 \<le> hist div patch
            \<and> (md = ''decoder'' \<longrightarrow> ck \<noteq> Some Unreadable)"
    then show "\<exists>m. HUTformer_init nodes hist pred patch md ck = Inr m"
      using HUTformer_init_ok [of md patch hist ck nodes pred] by blast
  qed
  have fw: "8 dvd hist div patch \<and> (\<exists>B L N C. history = [B, L, N, C] \<and> patch dvd L)
      \<and> (md = ''decoder'' \<longrightarrow> patch dvd pred)"
    if a: "HUTformer_init nodes hist pred patch md ck = Inr m \<and> forward_shape m history future = Inr s"
    for m history future s
  proof -
    from a have init: "HUTformer_init nodes hist pred patch md ck = Inr m" by simp
    from a forward_shape_Inr obtain z
      where run: "forward (shape_torch m) m history future 0 0 False () () = Inr z" by blast
    from forward_reaches_encoder [OF init run]
    obtain B L N C H1 H2 H3 where h: "history = [B, L, N, C]" and BN: "0 < B * N" and pL: "patch dvd L"
      and e1: "shape_call m M_encoder_1 [[B * N, hist div patch, 64]] = Inr H1"
      and e2: "shape_call m M_encoder_2 [H1] = Inr H2"
      and e3: "shape_call m M_encoder_3 [H2] = Inr H3"
      and pp: "md = ''decoder'' \<longrightarrow> patch dvd pred"
      by blast
    have "8 dvd hist div patch"
      using not_multiple_of_8_fails [OF init _ BN e1 e2 e3] by blast
    with h pL pp show ?thesis by blast
  qed
  from iff fw show ?thesis by blast
qed

theorem construction_checks_no_divisibility_witness:
  "constructs 2 100 96 12 ''encoder'' None
   \<and> (\<nexists>s. construct_and_run 2 100 96 12 ''encoder'' None [1, 100, 2, 3] [1, 96, 2, 3] = Inr s)"
proof -
  note th = construction_checks_no_divisibility [of 2 100 96 12 "''encoder''" None]
  from th [THEN conjunct1] obtain m where m: "HUTformer_init 2 100 96 12 ''encoder'' None = Inr m"
    by auto
  have "\<not> (\<exists>s. forward_shape m [1, 100, 2, 3] [1, 96, 2, 3] = Inr s)"
  proof
    assume "\<exists>s. forward_shape m [1, 100, 2, 3] [1, 96, 2, 3] = Inr s"
    then obtain s where "forward_shape m [1, 100, 2, 3] [1, 96, 2, 3] = Inr s" by blast
    with th [THEN conjunct2] m have "\<exists>B L N C. [1, 100, 2, 3] = [B, L, N, C] \<and> (12 :: nat) dvd L"
      by blast
    then show False by simp
  qed
  then show ?thesis by (simp add: constructs_def construct_and_run_def m)
qed

theorem construction_counterexample:
  "constructs 2 100 96 12 ''encoder'' None \<and> constructs 2 120 100 12 ''decoder'' None"
proof -
  have "\<exists>m. HUTformer_init 2 100 96 12 ''encoder'' None = Inr m"
    using HUTformer_init_ok [of "''encoder''" 12 100 None 2 96] by simp
  moreover have "\<exists>m. HUTformer_init 2 120 100 12 ''decoder'' None = Inr m"
    using HUTformer_init_ok [of "''decoder''" 12 120 None 2 100] by simp
  ultimately show ?thesis by (auto simp: constructs_def)
qed

end
